theory Spec2Isabelle
  imports Main "HOL-Library.Sublist" "HOL-Library.Product_Lexorder" "HOL-Library.Multiset"
begin

section \<open>Python values\<close>

text \<open>
  The DHT core is dynamically typed Python 2.  Values that travel through messages, the
  data store and the search lists are modelled by one datatype.  Equality of the model
  is structural equality; tuples and lists keep the order of their components and a
  dictionary is an association list in insertion order.  Logging calls have no effect on
  any value and are left out of the model.
\<close>

datatype pyval =
    PNone
  | PBool bool
  | PInt int
  | PStr string
  | PTuple "pyval list"
  | PList "pyval list"
  | PDict "(string \<times> pyval) list"

datatype error =
  AssertionError | KeyError | IndexError | TypeError | ValueError | AttributeError

type_synonym message = "(string \<times> pyval) list"

text \<open>Python truthiness, as tested by \<^verbatim>\<open>if value:\<close>.\<close>

fun truthy :: "pyval \<Rightarrow> bool" where
  "truthy PNone = False"
| "truthy (PBool b) = b"
| "truthy (PInt i) = (i \<noteq> 0)"
| "truthy (PStr s) = (s \<noteq> [])"
| "truthy (PTuple xs) = (xs \<noteq> [])"
| "truthy (PList xs) = (xs \<noteq> [])"
| "truthy (PDict kvs) = (kvs \<noteq> [])"

section \<open>dedupe\<close>

text \<open>
  \<^verbatim>\<open>
  def dedupe(lst):
      seen = set()
      result = []
      for item in lst:
          fs = frozenset(item)
          if fs not in seen:
              result.append(item)
              seen.add(fs)
      return result
  \<close>
  A tuple is the list of its components; \<^verbatim>\<open>frozenset(item)\<close> is the set of them.
\<close>

fun dedupe_loop :: "'a list list \<Rightarrow> 'a set set \<Rightarrow> 'a list list \<Rightarrow> 'a list list" where
  "dedupe_loop [] seen result = result"
| "dedupe_loop (item # lst) seen result =
     (let fs = set item in
      if fs \<notin> seen then dedupe_loop lst (insert fs seen) (result @ [item])
      else dedupe_loop lst seen result)"

definition dedupe :: "'a list list \<Rightarrow> 'a list list" where
  "dedupe lst = dedupe_loop lst {} []"

text \<open>
  The index predicate of first occurrences: position \<open>i\<close> of \<open>lst\<close> holds a tuple whose
  component set differs from that of every earlier position.
\<close>

definition first_of_class :: "'a list list \<Rightarrow> nat \<Rightarrow> bool" where
  "first_of_class lst i = (\<forall>j<i. set (lst ! j) \<noteq> set (lst ! i))"

section \<open>Operations on Python values\<close>

text \<open>\<^verbatim>\<open>msg['name']\<close> on a message dictionary: a missing name raises KeyError.\<close>

definition msg_get :: "message \<Rightarrow> string \<Rightarrow> error + pyval" where
  "msg_get msg name = (case map_of msg name of None \<Rightarrow> Inl KeyError | Some v \<Rightarrow> Inr v)"

text \<open>An operand of integer arithmetic; \<^verbatim>\<open>bool\<close> is a subclass of \<^verbatim>\<open>int\<close>.\<close>

fun py_int :: "pyval \<Rightarrow> error + int" where
  "py_int (PInt i) = Inr i"
| "py_int (PBool b) = Inr (if b then 1 else 0)"
| "py_int _ = Inl TypeError"

text \<open>\<^verbatim>\<open>x in c\<close>: key membership for a dictionary, element membership for a list or a
  tuple, substring test for a string; any other container raises TypeError.\<close>

fun py_in :: "pyval \<Rightarrow> pyval \<Rightarrow> error + bool" where
  "py_in (PStr k) (PDict kvs) = Inr (k \<in> fst ` set kvs)"
| "py_in (PList _) (PDict kvs) = Inl TypeError"
| "py_in (PDict _) (PDict kvs) = Inl TypeError"
| "py_in _ (PDict kvs) = Inr False"
| "py_in x (PList xs) = Inr (x \<in> set xs)"
| "py_in x (PTuple xs) = Inr (x \<in> set xs)"
| "py_in (PStr t) (PStr s) = Inr (sublist t s)"
| "py_in _ _ = Inl TypeError"

text \<open>\<^verbatim>\<open>c['name']\<close> with a string subscript: only a dictionary accepts it.\<close>

fun py_getitem :: "pyval \<Rightarrow> string \<Rightarrow> error + pyval" where
  "py_getitem (PDict kvs) name =
     (case map_of kvs name of None \<Rightarrow> Inl KeyError | Some v \<Rightarrow> Inr v)"
| "py_getitem _ name = Inl TypeError"

text \<open>\<^verbatim>\<open>c[i]\<close> with a non-negative integer subscript on a sequence.\<close>

fun py_index :: "pyval \<Rightarrow> nat \<Rightarrow> error + pyval" where
  "py_index (PTuple xs) i = (if i < length xs then Inr (xs ! i) else Inl IndexError)"
| "py_index (PList xs) i = (if i < length xs then Inr (xs ! i) else Inl IndexError)"
| "py_index (PStr s) i = (if i < length s then Inr (PStr [s ! i]) else Inl IndexError)"
| "py_index (PDict kvs) i = Inl KeyError"
| "py_index _ i = Inl TypeError"

text \<open>\<^verbatim>\<open>l.append(v)\<close> and \<^verbatim>\<open>l.remove(v)\<close>: methods of lists only.\<close>

fun py_append :: "pyval \<Rightarrow> pyval \<Rightarrow> error + pyval" where
  "py_append (PList xs) v = Inr (PList (xs @ [v]))"
| "py_append _ v = Inl AttributeError"

fun py_remove :: "pyval \<Rightarrow> pyval \<Rightarrow> error + pyval" where
  "py_remove (PList xs) v = (if v \<in> set xs then Inr (PList (remove1 v xs)) else Inl ValueError)"
| "py_remove _ v = Inl AttributeError"

text \<open>Rebinding the entry \<open>name\<close> of a dictionary that has it (the effect of mutating the
  list stored there in place).\<close>

fun dict_set :: "pyval \<Rightarrow> string \<Rightarrow> pyval \<Rightarrow> pyval" where
  "dict_set (PDict kvs) name v = PDict (map (\<lambda>(k, w). if k = name then (k, v) else (k, w)) kvs)"
| "dict_set d name v = d"

text \<open>\<^verbatim>\<open>str.encode('hex')\<close>: two lower-case hexadecimal digits per byte.\<close>

definition hex_digit :: "nat \<Rightarrow> char" where
  "hex_digit n = ''0123456789abcdef'' ! (n mod 16)"

definition encode_hex :: "string \<Rightarrow> string" where
  "encode_hex s = concat (map (\<lambda>c. [hex_digit (of_char c div 16), hex_digit (of_char c)]) s)"

section \<open>Collaborators of the DHT\<close>

text \<open>
  The modules \<^verbatim>\<open>constants\<close>, \<^verbatim>\<open>datastore\<close>, \<^verbatim>\<open>routingtable\<close> and \<^verbatim>\<open>protocol\<close> and the crypto
  transport are imported by \<^verbatim>\<open>dht.py\<close> but are not part of the sources at hand.  The
  constants and the library functions (\<^verbatim>\<open>json.loads\<close>, \<^verbatim>\<open>urlparse\<close>) are parameters of the
  model, collected in one record.  \<open>json_loads\<close> yields \<open>None\<close> where \<^verbatim>\<open>json.loads\<close> raises
  ValueError; \<open>guid_int\<close> reads an identifier as the unsigned integer it denotes;
  \<open>check_port guid uri\<close> is the answer of the port probe of the crypto peer for that guid
  and uri.
\<close>

record env =
  k :: nat
  alpha :: nat
  dataExpireTimeout :: int
  replicateInterval :: int
  json_loads :: "string \<Rightarrow> pyval option"
  urlparse_hostname :: "pyval \<Rightarrow> pyval"
  urlparse_port :: "pyval \<Rightarrow> pyval"
  guid_int :: "pyval \<Rightarrow> nat"
  check_port :: "pyval \<Rightarrow> pyval \<Rightarrow> bool"

subsection \<open>The local value store\<close>

record entry =
  e_value :: pyval
  e_lastPublished :: int
  e_originallyPublished :: int
  e_originalPublisherID :: pyval
  e_market_id :: pyval

type_synonym datastore = "pyval \<rightharpoonup> entry"

text \<open>Modelled from the spec: the \<^verbatim>\<open>datastore\<close> module is missing; \<open>put(key, payload, now,
  originally_published_at, original_publisher_guid, market_id)\<close> of section 4.3 binds the
  key to the payload and its metadata.\<close>

definition setItem ::
  "datastore \<Rightarrow> pyval \<Rightarrow> pyval \<Rightarrow> int \<Rightarrow> int \<Rightarrow> pyval \<Rightarrow> pyval \<Rightarrow> datastore" where
  "setItem ds key val lastPublished originallyPublished originalPublisherID mid =
     ds(key \<mapsto> \<lparr>e_value = val, e_lastPublished = lastPublished,
                 e_originallyPublished = originallyPublished,
                 e_originalPublisherID = originalPublisherID, e_market_id = mid\<rparr>)"

text \<open>Modelled from the spec: the \<^verbatim>\<open>datastore\<close> module is missing; \<open>get(key)\<close> of section 4.3
  yields the payload, and None for a key that is absent (the index merge tests the
  result against None to find out whether an index exists).\<close>

definition getItem :: "datastore \<Rightarrow> pyval \<Rightarrow> pyval" where
  "getItem ds key = (case ds key of None \<Rightarrow> PNone | Some e \<Rightarrow> e_value e)"

text \<open>Modelled from the spec: the \<^verbatim>\<open>datastore\<close> module is missing; \<open>del(key)\<close> of section 4.3
  removes the key.\<close>

definition delItem :: "datastore \<Rightarrow> pyval \<Rightarrow> datastore" where
  "delItem ds key = ds(key := None)"

subsection \<open>Contacts and the routing table\<close>

record contact =
  c_guid :: pyval
  c_address :: pyval
  c_pub :: pyval
  c_nickname :: pyval
  c_ip :: pyval
  c_port :: pyval

text \<open>Modelled from the spec: the \<^verbatim>\<open>routingtable\<close> module is missing.  The table is the
  sequence of the contacts of all its buckets; \<open>get(guid) -> Contact?\<close> of section 4.1
  finds the contact of that guid.\<close>

definition getContact :: "contact list \<Rightarrow> pyval \<Rightarrow> contact option" where
  "getContact rt guid = find (\<lambda>c. c_guid c = guid) rt"

text \<open>Modelled from the spec: the \<^verbatim>\<open>routingtable\<close> module is missing;
  \<open>findCloseNodes(targetKey, n, excludingGuid)\<close> of section 4.1 collects up to n contacts
  ordered by ascending XOR distance to the target, ties broken by guid, and excludes the
  given guid.\<close>

definition findCloseNodes :: "env \<Rightarrow> contact list \<Rightarrow> pyval \<Rightarrow> nat \<Rightarrow> pyval \<Rightarrow> contact list" where
  "findCloseNodes E rt key n excl =
     take n (sort_key (\<lambda>c. (xor (guid_int E (c_guid c)) (guid_int E key), guid_int E (c_guid c)))
               (filter (\<lambda>c. c_guid c \<noteq> excl) rt))"

text \<open>Modelled from the spec: the \<^verbatim>\<open>routingtable\<close> module is missing; \<open>remove(guid)\<close> of
  section 4.1 is a best-effort delete.\<close>

definition removeContact :: "contact list \<Rightarrow> pyval \<Rightarrow> contact list" where
  "removeContact rt guid = filter (\<lambda>c. c_guid c \<noteq> guid) rt"

text \<open>Modelled from the spec: the \<^verbatim>\<open>routingtable\<close> module is missing; \<open>add(contact)\<close> of
  section 4.1 moves a contact that is present to the most-recently-seen position and
  appends one that is new.  Bucket capacity and splitting are outside this model.\<close>

definition addContact :: "contact list \<Rightarrow> contact \<Rightarrow> contact list" where
  "addContact rt c = filter (\<lambda>c'. c_guid c' \<noteq> c_guid c) rt @ [c]"

section \<open>The state of a DHT object\<close>

text \<open>
  A callback handed to a lookup is either absent, the closure that \<^verbatim>\<open>iterativeStore\<close>
  builds around \<^verbatim>\<open>storeKeyValue\<close> (with its bound key, value, publisher and age), or a
  callable of the caller's, known by a tag only.
\<close>

datatype callback = CbNone | CbStoreKeyValue pyval pyval pyval int | CbExternal nat

text \<open>
  \<^verbatim>\<open>class DHTSearch\<close>.  The tuples of the three lists are given by their components.  The
  fields \<^verbatim>\<open>_find_value_result\<close>, \<^verbatim>\<open>_pendingIterationCalls\<close> and \<^verbatim>\<open>_dhtCallbacks\<close> are never
  read or written after their creation and are omitted.
\<close>

record DHTSearch =
  s_key :: pyval
  s_call :: pyval
  s_callback :: callback
  s_shortlist :: "pyval list list"
  s_active_probes :: "pyval list list"
  s_already_contacted :: "pyval list list"
  s_previous_closest_node :: pyval
  s_slowNodeCount :: nat
  s_contactedNow :: nat
  s_prevShortlistLength :: nat
  s_findID :: pyval

text \<open>
  The fields of a DHT object and what it reads of its transport.  \<^verbatim>\<open>self._transport.guid\<close>
  and \<^verbatim>\<open>self._transport._guid\<close> are one field, \<open>transport_guid\<close>; the guid of the settings,
  \<^verbatim>\<open>self._settings['guid']\<close>, is a field of its own.
\<close>

record dht =
  settings_guid :: pyval
  transport_guid :: pyval
  transport_uri :: pyval
  transport_pubkey :: pyval
  transport_nickname :: pyval
  market_id :: pyval
  routingTable :: "contact list"
  dataStore :: datastore
  searches :: "DHTSearch list"
  activePeers :: "contact list"
  knownNodes :: "pyval list list"

text \<open>
  What a method does to its collaborators, in the order it does it: a message handed to
  \<^verbatim>\<open>send\<close> of the peer with the given guid, a crypto peer requested from the transport
  (guid, uri, pubkey, nickname) or for a guid at \<^verbatim>\<open>'tcp://%s:%s' % (ip, port)\<close>, a
  handshake started with the peer of a guid, and calls of \<^verbatim>\<open>iterativeStore\<close> (key, value,
  publisher, age), of \<^verbatim>\<open>touchKBucket\<close> and of a caller's callback with its argument.
\<close>

datatype effect =
    Send pyval message
  | GetCryptoPeer pyval pyval pyval pyval
  | GetCryptoPeerTcp pyval pyval pyval
  | StartHandshake pyval
  | IterativeStore pyval pyval pyval int
  | TouchKBucket pyval
  | CallExternal nat pyval

section \<open>store\<close>

text \<open>
  \<^verbatim>\<open>
  def store(self, key, value, originalPublisherID=None, age=0, **kwargs):
      if '_rpcNodeID' in kwargs:
          rpcSenderID = kwargs['_rpcNodeID']
      else:
          rpcSenderID = None
      if originalPublisherID is None:
          if rpcSenderID is not None:
              originalPublisherID = rpcSenderID
          else:
              raise TypeError(...)
      now = int(time.time())
      originallyPublished = now - age
      self._dataStore.setItem(key, value, now, originallyPublished, originalPublisherID,
                              market_id=self._market_id)
      return 'OK'
  \<close>
  The clock reading \<open>now\<close> is an argument of the model.
\<close>

definition rpcSenderID :: "(string \<rightharpoonup> pyval) \<Rightarrow> pyval" where
  "rpcSenderID kwargs = (case kwargs ''_rpcNodeID'' of Some v \<Rightarrow> v | None \<Rightarrow> PNone)"

definition store ::
  "dht \<Rightarrow> int \<Rightarrow> pyval \<Rightarrow> pyval \<Rightarrow> pyval \<Rightarrow> int \<Rightarrow> (string \<rightharpoonup> pyval) \<Rightarrow> error + (pyval \<times> dht)" where
  "store d now key val originalPublisherID age kwargs =
     (if originalPublisherID = PNone then
        (if rpcSenderID kwargs \<noteq> PNone then
           Inr (PStr ''OK'',
                d\<lparr>dataStore := setItem (dataStore d) key val now (now - age)
                                   (rpcSenderID kwargs) (market_id d)\<rparr>)
         else Inl TypeError)
      else
        Inr (PStr ''OK'',
             d\<lparr>dataStore := setItem (dataStore d) key val now (now - age)
                                originalPublisherID (market_id d)\<rparr>))"

section \<open>Inbound store messages\<close>

text \<open>
  \<^verbatim>\<open>
  def _on_storeValue(self, msg):
      key = msg['key']
      value = msg['value']
      originalPublisherID = msg['originalPublisherID']
      age = msg['age']
      now = int(time.time())
      originallyPublished = now - age
      if value:
          self._dataStore.setItem(key, value, now, originallyPublished,
                                  originalPublisherID, self._market_id)
      else:
          self._log.info('No value to store')
  \<close>
\<close>

definition on_storeValue :: "dht \<Rightarrow> int \<Rightarrow> message \<Rightarrow> error + dht" where
  "on_storeValue d now msg =
     (case msg_get msg ''key'' of Inl e \<Rightarrow> Inl e | Inr key \<Rightarrow>
      case msg_get msg ''value'' of Inl e \<Rightarrow> Inl e | Inr val \<Rightarrow>
      case msg_get msg ''originalPublisherID'' of Inl e \<Rightarrow> Inl e | Inr originalPublisherID \<Rightarrow>
      case msg_get msg ''age'' of Inl e \<Rightarrow> Inl e | Inr age \<Rightarrow>
      case py_int age of Inl e \<Rightarrow> Inl e | Inr a \<Rightarrow>
        if truthy val then
          Inr (d\<lparr>dataStore := setItem (dataStore d) key val now (now - a)
                                 originalPublisherID (market_id d)\<rparr>)
        else Inr d)"

section \<open>storeKeyValue\<close>

text \<open>
  The body of the \<^verbatim>\<open>try\<close> statement of \<^verbatim>\<open>storeKeyValue\<close> consists of four blocks, two that
  add to an index and two that remove from one:
  \<^verbatim>\<open>
  if 'keyword_index_add' in value_json:
      existing_index = self._dataStore[key]
      if existing_index is not None:
          if not value_json['keyword_index_add'] in existing_index['listings']:
              existing_index['listings'].append(value_json['keyword_index_add'])
          value = existing_index
      else:
          value = {'listings': [value_json['keyword_index_add']]}
  \<close>
  and the same for \<^verbatim>\<open>'notary_index_add'\<close> and \<^verbatim>\<open>'notaries'\<close>.  \<open>Inl\<close> is an exception raised
  in the block, \<open>Inr\<close> the value bound to \<^verbatim>\<open>value\<close> after it.
\<close>

definition index_add ::
  "string \<Rightarrow> string \<Rightarrow> pyval \<Rightarrow> datastore \<Rightarrow> pyval \<Rightarrow> pyval \<Rightarrow> error + pyval" where
  "index_add opname field value_json ds key val =
     (case py_in (PStr opname) value_json of Inl e \<Rightarrow> Inl e | Inr present \<Rightarrow>
      if present then
        (let existing_index = getItem ds key in
         if existing_index \<noteq> PNone then
           (case py_getitem value_json opname of Inl e \<Rightarrow> Inl e | Inr item \<Rightarrow>
            case py_getitem existing_index field of Inl e \<Rightarrow> Inl e | Inr members \<Rightarrow>
            case py_in item members of Inl e \<Rightarrow> Inl e | Inr isin \<Rightarrow>
              if \<not> isin then
                (case py_append members item of Inl e \<Rightarrow> Inl e
                 | Inr members' \<Rightarrow> Inr (dict_set existing_index field members'))
              else Inr existing_index)
         else
           (case py_getitem value_json opname of Inl e \<Rightarrow> Inl e
            | Inr item \<Rightarrow> Inr (PDict [(field, PList [item])])))
      else Inr val)"

text \<open>
  \<^verbatim>\<open>
  if 'keyword_index_remove' in value_json:
      existing_index = self._dataStore[key]
      if existing_index is not None:
          if value_json['keyword_index_remove'] in existing_index['listings']:
              existing_index['listings'].remove(value_json['keyword_index_remove'])
              value = existing_index
          else:
              return
      else:
          return
  \<close>
  \<open>Inr None\<close> is the \<^verbatim>\<open>return\<close> that leaves \<^verbatim>\<open>storeKeyValue\<close>.
\<close>

definition index_remove ::
  "string \<Rightarrow> string \<Rightarrow> pyval \<Rightarrow> datastore \<Rightarrow> pyval \<Rightarrow> pyval \<Rightarrow> error + pyval option" where
  "index_remove opname field value_json ds key val =
     (case py_in (PStr opname) value_json of Inl e \<Rightarrow> Inl e | Inr present \<Rightarrow>
      if present then
        (let existing_index = getItem ds key in
         if existing_index \<noteq> PNone then
           (case py_getitem value_json opname of Inl e \<Rightarrow> Inl e | Inr item \<Rightarrow>
            case py_getitem existing_index field of Inl e \<Rightarrow> Inl e | Inr members \<Rightarrow>
            case py_in item members of Inl e \<Rightarrow> Inl e | Inr isin \<Rightarrow>
              if isin then
                (case py_remove members item of Inl e \<Rightarrow> Inl e
                 | Inr members' \<Rightarrow> Inr (Some (dict_set existing_index field members')))
              else Inr None)
         else Inr None)
      else Inr (Some val))"

text \<open>
  The four blocks in the order of the source.  An exception raised anywhere in the
  \<^verbatim>\<open>try\<close> body (also by \<^verbatim>\<open>json.loads\<close>, which wants a string) is caught by
  \<^verbatim>\<open>except Exception\<close>, and the method goes on with \<^verbatim>\<open>value\<close> as it is bound at that
  point.  The result is \<open>None\<close> when the method returns from inside the body, else the
  value to store.
\<close>

definition index_blocks :: "pyval \<Rightarrow> datastore \<Rightarrow> pyval \<Rightarrow> pyval \<Rightarrow> pyval option" where
  "index_blocks value_json ds key val =
     (case index_add ''notary_index_add'' ''notaries'' value_json ds key val of
        Inl e \<Rightarrow> Some val
      | Inr v1 \<Rightarrow>
     (case index_remove ''notary_index_remove'' ''notaries'' value_json ds key v1 of
        Inl e \<Rightarrow> Some v1
      | Inr None \<Rightarrow> None
      | Inr (Some v2) \<Rightarrow>
     (case index_add ''keyword_index_add'' ''listings'' value_json ds key v2 of
        Inl e \<Rightarrow> Some v2
      | Inr v3 \<Rightarrow>
     (case index_remove ''keyword_index_remove'' ''listings'' value_json ds key v3 of
        Inl e \<Rightarrow> Some v3
      | Inr None \<Rightarrow> None
      | Inr (Some v4) \<Rightarrow> Some v4))))"

definition index_merge :: "env \<Rightarrow> datastore \<Rightarrow> pyval \<Rightarrow> pyval \<Rightarrow> pyval option" where
  "index_merge E ds key val =
     (case val of
        PStr s \<Rightarrow>
          (case json_loads E s of
             None \<Rightarrow> Some val
           | Some value_json \<Rightarrow> index_blocks value_json ds key val)
      | _ \<Rightarrow> Some val)"

text \<open>Modelled from the spec: the \<^verbatim>\<open>protocol\<close> module is missing; the store message of
  section 6 is \<open>{type, key, value, originalPublisherID, age}\<close>.\<close>

definition proto_store :: "pyval \<Rightarrow> pyval \<Rightarrow> pyval \<Rightarrow> int \<Rightarrow> message" where
  "proto_store key val originalPublisherID age =
     [(''type'', PStr ''store''), (''key'', key), (''value'', val),
      (''originalPublisherID'', originalPublisherID), (''age'', PInt age)]"

text \<open>\<^verbatim>\<open>for x in c\<close>: the items a value yields when iterated.\<close>

fun py_iter :: "pyval \<Rightarrow> error + pyval list" where
  "py_iter (PList xs) = Inr xs"
| "py_iter (PTuple xs) = Inr xs"
| "py_iter (PStr s) = Inr (map (\<lambda>c. PStr [c]) s)"
| "py_iter (PDict kvs) = Inr (map (\<lambda>kv. PStr (fst kv)) kvs)"
| "py_iter _ = Inl TypeError"

text \<open>
  \<^verbatim>\<open>
  for node in nodes:
      uri = 'tcp://%s:%s' % (node[0], node[1])
      guid = node[2]
      peer = self._routingTable.getContact(guid)
      if guid == self._transport.guid:
          break
      if not peer:
          peer = self._transport.get_crypto_peer(guid, uri)
          peer.start_handshake()
      peer.send(proto_store(key, value, originalPublisherID, age))
  \<close>
  The result is the exception that ended the loop, if any, and what was done before.
\<close>

fun store_nodes :: "dht \<Rightarrow> message \<Rightarrow> pyval list \<Rightarrow> error option \<times> effect list" where
  "store_nodes d m [] = (None, [])"
| "store_nodes d m (node # nodes) =
     (case py_index node 0 of Inl e \<Rightarrow> (Some e, []) | Inr ip \<Rightarrow>
      case py_index node 1 of Inl e \<Rightarrow> (Some e, []) | Inr port \<Rightarrow>
      case py_index node 2 of Inl e \<Rightarrow> (Some e, []) | Inr guid \<Rightarrow>
        if guid = transport_guid d then (None, [])
        else
          (let this = (case getContact (routingTable d) guid of
                         None \<Rightarrow> [GetCryptoPeerTcp guid ip port, StartHandshake guid, Send guid m]
                       | Some peer \<Rightarrow> [Send guid m]);
               rest = store_nodes d m nodes
           in (fst rest, this @ snd rest)))"

text \<open>
  \<^verbatim>\<open>storeKeyValue(self, nodes, key, value, originalPublisherID, age)\<close>: the index merge, the
  write to the local store, then the loop over the nodes.  The result is the exception
  that left the method (if any), the state, and what was done to the collaborators.
\<close>

definition storeKeyValue ::
  "env \<Rightarrow> dht \<Rightarrow> int \<Rightarrow> pyval \<Rightarrow> pyval \<Rightarrow> pyval \<Rightarrow> pyval \<Rightarrow> int
     \<Rightarrow> error option \<times> dht \<times> effect list" where
  "storeKeyValue E d now nodes key val originalPublisherID age =
     (case index_merge E (dataStore d) key val of
        None \<Rightarrow> (None, d, [])
      | Some v \<Rightarrow>
          (let d' = d\<lparr>dataStore := setItem (dataStore d) key v now (now - age)
                                      originalPublisherID (market_id d)\<rparr>
           in case py_iter nodes of
                Inl e \<Rightarrow> (Some e, d', [])
              | Inr ns \<Rightarrow>
                  (let r = store_nodes d' (proto_store key v originalPublisherID age) ns
                   in (fst r, d', snd r))))"

section \<open>Answering findNode\<close>

text \<open>
  \<^verbatim>\<open>
  def close_nodes(self, key, guid):
      contacts = self._routingTable.findCloseNodes(key, constants.k, guid)
      contactTriples = []
      for contact in contacts:
          contactTriples.append((contact._guid, contact._address, contact._pub,
                                 contact._nickname))
      return self.dedupe(contactTriples)
  \<close>
\<close>

definition close_nodes :: "env \<Rightarrow> dht \<Rightarrow> pyval \<Rightarrow> pyval \<Rightarrow> pyval list list" where
  "close_nodes E d key guid =
     dedupe (map (\<lambda>contact. [c_guid contact, c_address contact, c_pub contact, c_nickname contact])
               (findCloseNodes E (routingTable d) key (k E) guid))"

text \<open>The replies of \<^verbatim>\<open>on_find_node\<close>, with the entries in the order of the source.\<close>

definition foundKey_response :: "dht \<Rightarrow> pyval \<Rightarrow> pyval \<Rightarrow> message" where
  "foundKey_response d val findID =
     [(''type'', PStr ''findNodeResponse''), (''senderGUID'', transport_guid d),
      (''uri'', transport_uri d), (''pubkey'', transport_pubkey d), (''foundKey'', val),
      (''senderNick'', transport_nickname d), (''findID'', findID)]"

definition foundNodes_response :: "dht \<Rightarrow> pyval list list \<Rightarrow> pyval \<Rightarrow> message" where
  "foundNodes_response d contacts findID =
     [(''type'', PStr ''findNodeResponse''), (''senderGUID'', transport_guid d),
      (''senderNick'', transport_nickname d), (''uri'', transport_uri d),
      (''pubkey'', transport_pubkey d), (''foundNodes'', PList (map PTuple contacts)),
      (''findID'', findID)]"

definition foundNode_response :: "dht \<Rightarrow> contact \<Rightarrow> pyval \<Rightarrow> message" where
  "foundNode_response d foundContact findID =
     [(''type'', PStr ''findNodeResponse''), (''senderGUID'', transport_guid d),
      (''senderNick'', transport_nickname d), (''uri'', transport_uri d),
      (''pubkey'', transport_pubkey d),
      (''foundNode'', PTuple [c_guid foundContact, c_address foundContact, c_pub foundContact]),
      (''findID'', findID)]"

text \<open>
  The reply that \<^verbatim>\<open>on_find_node\<close> hands to \<^verbatim>\<open>new_peer.send\<close> once the sender is known:
  \<^verbatim>\<open>
  if msg['findValue'] is True:
      if key in self._dataStore and self._dataStore[key] is not None:
          ... "foundKey": self._dataStore[key] ...
      else:
          contacts = self.close_nodes(key, guid)
          ... "foundNodes": contacts ...
  else:
      foundContact = self._routingTable.getContact(key)
      if foundContact:
          foundNode = (foundContact._guid, foundContact._address, foundContact._pub)
          ... "foundNode": foundNode ...
      else:
          contacts = self.close_nodes(key, guid)
          ... "foundNodes": contacts ...
  \<close>
\<close>

definition find_node_reply :: "env \<Rightarrow> dht \<Rightarrow> pyval \<Rightarrow> pyval \<Rightarrow> pyval \<Rightarrow> pyval \<Rightarrow> message" where
  "find_node_reply E d findValue key guid findID =
     (if findValue = PBool True then
        (if dataStore d key \<noteq> None \<and> getItem (dataStore d) key \<noteq> PNone then
           foundKey_response d (getItem (dataStore d) key) findID
         else foundNodes_response d (close_nodes E d key guid) findID)
      else
        (case getContact (routingTable d) key of
           Some foundContact \<Rightarrow> foundNode_response d foundContact findID
         | None \<Rightarrow> foundNodes_response d (close_nodes E d key guid) findID))"

text \<open>
  \<^verbatim>\<open>
  def on_find_node(self, msg):
      guid = msg['senderGUID']
      key = msg['key']
      findID = msg['findID']
      uri = msg['uri']
      pubkey = msg['pubkey']
      assert guid is not None and guid != self._transport.guid
      assert key is not None
      assert findID is not None
      assert uri is not None
      assert pubkey is not None
      new_peer = self._routingTable.getContact(guid)
      if new_peer is not None:
          (the reply, see above)
          if new_peer is None or new_peer._address != uri:
              new_peer._address = uri
              self._routingTable.removeContact(new_peer._guid)
              self._routingTable.addContact(new_peer)
  \<close>
  The result is the exception that left the method (if any), the state after it and what
  was sent.
\<close>

definition on_find_node :: "env \<Rightarrow> dht \<Rightarrow> message \<Rightarrow> error option \<times> dht \<times> effect list" where
  "on_find_node E d msg =
     (case msg_get msg ''senderGUID'' of Inl e \<Rightarrow> (Some e, d, []) | Inr guid \<Rightarrow>
      case msg_get msg ''key'' of Inl e \<Rightarrow> (Some e, d, []) | Inr key \<Rightarrow>
      case msg_get msg ''findID'' of Inl e \<Rightarrow> (Some e, d, []) | Inr findID \<Rightarrow>
      case msg_get msg ''uri'' of Inl e \<Rightarrow> (Some e, d, []) | Inr uri \<Rightarrow>
      case msg_get msg ''pubkey'' of Inl e \<Rightarrow> (Some e, d, []) | Inr pubkey \<Rightarrow>
        if \<not> (guid \<noteq> PNone \<and> guid \<noteq> transport_guid d) then (Some AssertionError, d, [])
        else if key = PNone then (Some AssertionError, d, [])
        else if findID = PNone then (Some AssertionError, d, [])
        else if uri = PNone then (Some AssertionError, d, [])
        else if pubkey = PNone then (Some AssertionError, d, [])
        else
          (case getContact (routingTable d) guid of
             None \<Rightarrow> (None, d, [])
           | Some new_peer \<Rightarrow>
               (case msg_get msg ''findValue'' of Inl e \<Rightarrow> (Some e, d, []) | Inr findValue \<Rightarrow>
                  (let sent = [Send (c_guid new_peer) (find_node_reply E d findValue key guid findID)]
                   in if c_address new_peer \<noteq> uri then
                        (None,
                         d\<lparr>routingTable :=
                             addContact (removeContact (routingTable d) (c_guid new_peer))
                               (new_peer\<lparr>c_address := uri\<rparr>)\<rparr>,
                         sent)
                      else (None, d, sent)))))"

section \<open>The peer table\<close>

text \<open>
  \<^verbatim>\<open>
  def add_peer(self, transport, uri, pubkey=None, guid=None, nickname=None):
      assert(uri)
      if uri is not None:
          peer_tuple = (uri, pubkey, guid, nickname)
          for idx, peer in enumerate(self._activePeers):
              active_peer_tuple = (peer._pub, peer._address, peer._guid, peer._nickname)
              if active_peer_tuple == peer_tuple:
                  old_peer = self._routingTable.getContact(guid)
                  if old_peer and (old_peer._address != uri or old_peer._pub != pubkey):
                      self._routingTable.removeContact(guid)
                      self._routingTable.addContact(peer)
                  return
              else:
                  if peer._guid == guid or peer._address == uri:
                      peer._guid = guid
                      peer._address = uri
                      peer._pub = pubkey
                      peer._nickname = nickname
                      self._activePeers[idx] = peer
                      self._routingTable.removeContact(guid)
                      self._routingTable.addContact(peer)
                      return
          new_peer = self._transport.get_crypto_peer(guid, uri, pubkey, nickname)
          if new_peer.check_port():
              new_peer.start_handshake(handshake_cb=cb)
  \<close>
  The loop returns at the first active peer that matches fully or partially.  The
  handshake callback runs after the method has returned and is not part of it.  Peers
  are values in this model: a peer held by both the peer table and the routing table is
  two equal records.
\<close>

fun add_peer_loop ::
  "dht \<Rightarrow> pyval \<Rightarrow> pyval \<Rightarrow> pyval \<Rightarrow> pyval \<Rightarrow> contact list \<Rightarrow> contact list \<Rightarrow> dht option" where
  "add_peer_loop d uri pubkey guid nickname earlier [] = None"
| "add_peer_loop d uri pubkey guid nickname earlier (peer # rest) =
     (if (c_pub peer, c_address peer, c_guid peer, c_nickname peer) = (uri, pubkey, guid, nickname)
      then
        (case getContact (routingTable d) guid of
           Some old_peer \<Rightarrow>
             if c_address old_peer \<noteq> uri \<or> c_pub old_peer \<noteq> pubkey then
               Some (d\<lparr>routingTable := addContact (removeContact (routingTable d) guid) peer\<rparr>)
             else Some d
         | None \<Rightarrow> Some d)
      else if c_guid peer = guid \<or> c_address peer = uri then
        (let peer' = peer\<lparr>c_guid := guid, c_address := uri, c_pub := pubkey,
                          c_nickname := nickname\<rparr>
         in Some (d\<lparr>activePeers := earlier @ peer' # rest,
                    routingTable := addContact (removeContact (routingTable d) guid) peer'\<rparr>))
      else add_peer_loop d uri pubkey guid nickname (earlier @ [peer]) rest)"

definition add_peer ::
  "env \<Rightarrow> dht \<Rightarrow> pyval \<Rightarrow> pyval \<Rightarrow> pyval \<Rightarrow> pyval \<Rightarrow> error option \<times> dht \<times> effect list" where
  "add_peer E d uri pubkey guid nickname =
     (if \<not> truthy uri then (Some AssertionError, d, [])
      else
        (case add_peer_loop d uri pubkey guid nickname [] (activePeers d) of
           Some d' \<Rightarrow> (None, d', [])
         | None \<Rightarrow>
             (None, d,
              GetCryptoPeer guid uri pubkey nickname #
                (if check_port E guid uri then [StartHandshake guid] else []))))"

section \<open>Searches\<close>

text \<open>
  \<^verbatim>\<open>DHTSearch.__init__(self, market_id, key, call, callback)\<close>.  The find ID, the SHA1 digest
  of 128 random bytes, is an argument of the model.
\<close>

definition new_DHTSearch :: "pyval \<Rightarrow> pyval \<Rightarrow> callback \<Rightarrow> pyval \<Rightarrow> DHTSearch" where
  "new_DHTSearch key call cb findID =
     \<lparr>s_key = key, s_call = call, s_callback = cb, s_shortlist = [], s_active_probes = [],
      s_already_contacted = [], s_previous_closest_node = PNone, s_slowNodeCount = 0,
      s_contactedNow = 0, s_prevShortlistLength = 0, s_findID = findID\<rparr>"

text \<open>
  \<^verbatim>\<open>
  def add_to_shortlist(self, additions):
      for item in additions:
          if item not in self._shortlist:
              self._shortlist.append(item)
  \<close>
\<close>

fun add_to_shortlist :: "DHTSearch \<Rightarrow> pyval list list \<Rightarrow> DHTSearch" where
  "add_to_shortlist s [] = s"
| "add_to_shortlist s (item # additions) =
     (if item \<notin> set (s_shortlist s)
      then add_to_shortlist (s\<lparr>s_shortlist := s_shortlist s @ [item]\<rparr>) additions
      else add_to_shortlist s additions)"

text \<open>
  \<^verbatim>\<open>
  def activeSearchExists(self, findID):
      activeSearchExists = False
      for search in self._searches:
          if findID == search._findID:
              return True
      if not activeSearchExists:
          return False
  \<close>
\<close>

fun activeSearchExists_loop :: "DHTSearch list \<Rightarrow> pyval \<Rightarrow> bool" where
  "activeSearchExists_loop [] findID = False"
| "activeSearchExists_loop (search # rest) findID =
     (if findID = s_findID search then True else activeSearchExists_loop rest findID)"

definition activeSearchExists :: "dht \<Rightarrow> pyval \<Rightarrow> bool" where
  "activeSearchExists d findID = activeSearchExists_loop (searches d) findID"

text \<open>
  The search that \<^verbatim>\<open>extendShortlist\<close> and \<^verbatim>\<open>on_findNodeResponse\<close> work on is the one the loop
  \<^verbatim>\<open>
  for s in self._searches:
      if s._findID == findID:
          search = s
          foundSearch = True
  \<close>
  binds last; the model gives its position in the list.
\<close>

fun find_search :: "DHTSearch list \<Rightarrow> pyval \<Rightarrow> nat \<Rightarrow> nat option \<Rightarrow> nat option" where
  "find_search [] findID i found = found"
| "find_search (s # rest) findID i found =
     find_search rest findID (Suc i) (if s_findID s = findID then Some i else found)"

text \<open>\<^verbatim>\<open>node_guid, node_uri, node_pubkey, node_nick = node\<close>: unpacking wants exactly four
  items.\<close>

definition unpack4 :: "pyval \<Rightarrow> error + (pyval \<times> pyval \<times> pyval \<times> pyval)" where
  "unpack4 node =
     (case py_iter node of
        Inl e \<Rightarrow> Inl e
      | Inr xs \<Rightarrow> if length xs = 4 then Inr (xs ! 0, xs ! 1, xs ! 2, xs ! 3) else Inl ValueError)"

text \<open>
  \<^verbatim>\<open>
  for node in foundNodes:
      node_guid, node_uri, node_pubkey, node_nick = node
      node_ip = urlparse(node_uri).hostname
      node_port = urlparse(node_uri).port
      if (node_ip, node_port, node_guid, node_nick) not in search._shortlist:
          search.add_to_shortlist([(node_ip, node_port, node_guid, node_nick)])
      if node_guid == self._settings['guid']:
          continue
      for peer in self._activePeers:
          if node_guid == peer._guid:
              continue
      if node_guid != self._settings['guid']:
          self.add_peer(self._transport, node_uri, node_pubkey, node_guid, node_nick)
  \<close>
  The inner loop over the active peers has no effect.  \<open>i\<close> is the position of the search.
\<close>

fun extendShortlist_loop ::
  "env \<Rightarrow> dht \<Rightarrow> nat \<Rightarrow> pyval list \<Rightarrow> error option \<times> dht \<times> effect list" where
  "extendShortlist_loop E d i [] = (None, d, [])"
| "extendShortlist_loop E d i (node # foundNodes) =
     (case unpack4 node of
        Inl e \<Rightarrow> (Some e, d, [])
      | Inr (node_guid, node_uri, node_pubkey, node_nick) \<Rightarrow>
          (let node_ip = urlparse_hostname E node_uri;
               node_port = urlparse_port E node_uri;
               search = searches d ! i;
               search' = (if [node_ip, node_port, node_guid, node_nick] \<notin> set (s_shortlist search)
                          then add_to_shortlist search [[node_ip, node_port, node_guid, node_nick]]
                          else search);
               d1 = d\<lparr>searches := (searches d)[i := search']\<rparr>
           in if node_guid = settings_guid d then extendShortlist_loop E d1 i foundNodes
              else
                (case add_peer E d1 node_uri node_pubkey node_guid node_nick of
                   (Some e, d2, effs) \<Rightarrow> (Some e, d2, effs)
                 | (None, d2, effs) \<Rightarrow>
                     (case extendShortlist_loop E d2 i foundNodes of
                        (err, d3, effs') \<Rightarrow> (err, d3, effs @ effs')))))"

text \<open>
  \<^verbatim>\<open>extendShortlist(self, transport, findID, foundNodes)\<close>: without a search of that find ID
  the method logs an error and returns.
\<close>

definition extendShortlist ::
  "env \<Rightarrow> dht \<Rightarrow> pyval \<Rightarrow> pyval list \<Rightarrow> error option \<times> dht \<times> effect list" where
  "extendShortlist E d findID foundNodes =
     (case find_search (searches d) findID 0 None of
        None \<Rightarrow> (None, d, [])
      | Some i \<Rightarrow> extendShortlist_loop E d i foundNodes)"

section \<open>The lookup engine\<close>

text \<open>Modelled from the spec: the \<^verbatim>\<open>routingtable\<close> module is missing; section 3 gives
  \<open>Distance(a,b) = a XOR b\<close> on the identifiers read as unsigned integers.\<close>

definition distance :: "env \<Rightarrow> pyval \<Rightarrow> pyval \<Rightarrow> nat" where
  "distance E a b = xor (guid_int E a) (guid_int E b)"

text \<open>
  The findNode message of \<^verbatim>\<open>_searchIteration\<close>.  The transport of a contact is the
  transport of the node, so \<^verbatim>\<open>contact._transport._uri\<close> and \<^verbatim>\<open>contact._transport.pubkey\<close>
  are the node's own uri and public key.
\<close>

definition findNode_msg :: "dht \<Rightarrow> DHTSearch \<Rightarrow> bool \<Rightarrow> message" where
  "findNode_msg d new_search findValue =
     [(''type'', PStr ''findNode''), (''uri'', transport_uri d),
      (''senderGUID'', transport_guid d), (''key'', s_key new_search),
      (''findValue'', PBool findValue), (''senderNick'', transport_nickname d),
      (''findID'', s_findID new_search), (''pubkey'', transport_pubkey d)]"

text \<open>
  The body of the loop over the shortlist, up to the test of the counter:
  \<^verbatim>\<open>
  if node not in new_search._already_contacted:
      if node[2] != self._transport._guid:
          new_search._active_probes.append(node)
          new_search._already_contacted.append(node)
          contact = self._routingTable.getContact(node[2])
          if contact:
              msg = {...}
              contact.send(msg)
              new_search._contactedNow += 1
          else:
              self._log.error('No contact was found for this guid: %s' % node[2])
  \<close>
\<close>

definition probe_node ::
  "dht \<Rightarrow> bool \<Rightarrow> DHTSearch \<Rightarrow> pyval list \<Rightarrow> error + (DHTSearch \<times> effect list)" where
  "probe_node d findValue new_search node =
     (if node \<notin> set (s_already_contacted new_search) then
        (if length node \<le> 2 then Inl IndexError
         else if node ! 2 \<noteq> transport_guid d then
           (let s1 = new_search\<lparr>s_active_probes := s_active_probes new_search @ [node],
                                s_already_contacted := s_already_contacted new_search @ [node]\<rparr>
            in case getContact (routingTable d) (node ! 2) of
                 Some contact \<Rightarrow>
                   Inr (s1\<lparr>s_contactedNow := s_contactedNow s1 + 1\<rparr>,
                        [Send (c_guid contact) (findNode_msg d new_search findValue)])
               | None \<Rightarrow> Inr (s1, []))
         else Inr (new_search, []))
      else Inr (new_search, []))"

text \<open>
  \<^verbatim>\<open>
  for node in new_search._shortlist:
      (the body above)
      if new_search._contactedNow == constants.alpha:
          break
  \<close>
\<close>

fun probe_loop ::
  "env \<Rightarrow> dht \<Rightarrow> bool \<Rightarrow> DHTSearch \<Rightarrow> pyval list list
     \<Rightarrow> error option \<times> DHTSearch \<times> effect list" where
  "probe_loop E d findValue new_search [] = (None, new_search, [])"
| "probe_loop E d findValue new_search (node # rest) =
     (case probe_node d findValue new_search node of
        Inl e \<Rightarrow> (Some e, new_search, [])
      | Inr (s', effs) \<Rightarrow>
          if s_contactedNow s' = alpha E then (None, s', effs)
          else
            (case probe_loop E d findValue s' rest of
               (err, s'', effs') \<Rightarrow> (err, s'', effs @ effs')))"

text \<open>
  \<^verbatim>\<open>
  def _searchIteration(self, new_search, findValue=False):
      new_search._slowNodeCount[0] = len(new_search._active_probes)
      self._activePeers.sort(lambda firstNode, secondNode, targetKey=new_search._key: cmp(
          self._routingTable.distance(firstNode._guid, targetKey),
          self._routingTable.distance(secondNode._guid, targetKey)))
      if len(self._activePeers):
          closestPeer = self._activePeers[0]
          closestPeer_ip = urlparse(closestPeer._address).hostname
          closestPeer_port = urlparse(closestPeer._address).port
          new_search._previous_closest_node = (closestPeer_ip, closestPeer_port,
                                               closestPeer._guid)
      if len(new_search._shortlist) > 1:
          new_search._shortlist = self.dedupe(new_search._shortlist)
          new_search._shortlist.sort(lambda firstNode, secondNode, targetKey=new_search._key:
              cmp(self._routingTable.distance(firstNode[2], targetKey),
                  self._routingTable.distance(secondNode[2], targetKey)))
          new_search._prevShortlistLength = len(new_search._shortlist)
      if not self.activeSearchExists(new_search._findID):
          return
      (the loop over the shortlist)
  \<close>
  Python's sort is stable, as \<open>sort_key\<close> is.  Sorting two or more tuples compares every one
  of them, and a tuple with fewer than three components raises IndexError there; the
  model leaves the deduplicated list in its order then.  The result is the exception (if
  any), the state of the node, the search as the method leaves it, and what was sent.
\<close>

definition searchIteration ::
  "env \<Rightarrow> dht \<Rightarrow> DHTSearch \<Rightarrow> bool \<Rightarrow> error option \<times> dht \<times> DHTSearch \<times> effect list" where
  "searchIteration E d new_search findValue =
     (let s1 = new_search\<lparr>s_slowNodeCount := length (s_active_probes new_search)\<rparr>;
          d1 = d\<lparr>activePeers :=
                   sort_key (\<lambda>p. distance E (c_guid p) (s_key new_search)) (activePeers d)\<rparr>;
          s2 = (case activePeers d1 of
                  [] \<Rightarrow> s1
                | closestPeer # _ \<Rightarrow>
                    s1\<lparr>s_previous_closest_node :=
                         PTuple [urlparse_hostname E (c_address closestPeer),
                                 urlparse_port E (c_address closestPeer),
                                 c_guid closestPeer]\<rparr>);
          deduped = dedupe (s_shortlist s2)
      in if length (s_shortlist s2) > 1 \<and> length deduped > 1
            \<and> list_ex (\<lambda>node. length node \<le> 2) deduped
         then (Some IndexError, d1, s2\<lparr>s_shortlist := deduped\<rparr>, [])
         else
           (let s3 = (if length (s_shortlist s2) > 1 then
                        s2\<lparr>s_shortlist :=
                              sort_key (\<lambda>node. distance E (node ! 2) (s_key new_search)) deduped,
                            s_prevShortlistLength := length deduped\<rparr>
                      else s2)
            in if \<not> activeSearchExists d1 (s_findID s3) then (None, d1, s3, [])
               else
                 (case probe_loop E d1 findValue s3 (s_shortlist s3) of
                    (err, s4, effs) \<Rightarrow> (err, d1, s4, effs))))"

text \<open>
  A call \<^verbatim>\<open>self._searchIteration(search, ...)\<close> on the search object that sits at position
  \<open>i\<close> of \<^verbatim>\<open>self._searches\<close>: the object is shared, so the list holds the search as the
  method leaves it.
\<close>

definition searchIteration_at ::
  "env \<Rightarrow> dht \<Rightarrow> nat \<Rightarrow> bool \<Rightarrow> error option \<times> dht \<times> effect list" where
  "searchIteration_at E d i findValue =
     (case searchIteration E d (searches d ! i) findValue of
        (err, d', s', effs) \<Rightarrow> (err, d'\<lparr>searches := (searches d')[i := s']\<rparr>, effs))"

text \<open>
  Calling a callback with an argument: the closure of \<^verbatim>\<open>iterativeStore\<close> runs
  \<^verbatim>\<open>storeKeyValue(msg, findKey, value, originalPublisherID, age)\<close>; a callable of the caller's
  is recorded; calling \<^verbatim>\<open>None\<close> raises TypeError.
\<close>

fun invoke_callback ::
  "env \<Rightarrow> dht \<Rightarrow> int \<Rightarrow> callback \<Rightarrow> pyval \<Rightarrow> error option \<times> dht \<times> effect list" where
  "invoke_callback E d now CbNone arg = (Some TypeError, d, [])"
| "invoke_callback E d now (CbStoreKeyValue key val originalPublisherID age) arg =
     storeKeyValue E d now arg key val originalPublisherID age"
| "invoke_callback E d now (CbExternal tag) arg = (None, d, [CallExternal tag arg])"

text \<open>
  What \<^verbatim>\<open>_iterativeFind\<close> returns: the string \<^verbatim>\<open>'You are looking for yourself'\<close>, the list
  \<^verbatim>\<open>[node]\<close> of one active peer, the empty list, or nothing.
\<close>

datatype find_return = LookingForYourself | ActivePeer contact | EmptyList | ReturnNone

text \<open>
  \<^verbatim>\<open>
  def _iterativeFind(self, key, startupShortlist=None, call='findNode', callback=None):
      new_search = DHTSearch(self._market_id, key, call, callback=callback)
      self._searches.append(new_search)
      findValue = True if call != 'findNode' else False
      if not findValue and key == self._settings['guid']:
          return 'You are looking for yourself'
      if not findValue:
          for node in self._activePeers:
              if node._guid == key:
                  return [node]
      if startupShortlist == [] or startupShortlist is None:
          closeNodes = self._routingTable.findCloseNodes(key, constants.alpha,
                                                         self._settings['guid'])
          shortlist = []
          for closeNode in closeNodes:
              shortlist.append((closeNode._ip, closeNode._port, closeNode._guid))
          if len(shortlist) > 0:
              new_search.add_to_shortlist(shortlist)
          if key != self._settings['guid']:
              self._routingTable.touchKBucket(key)
          if len(new_search._shortlist) == 0:
              if callback is not None:
                  callback([])
              else:
                  return []
      else:
          new_search._shortlist = startupShortlist
      self._searchIteration(new_search, findValue=findValue)
  \<close>
  The new search is the last entry of \<^verbatim>\<open>self._searches\<close>, at position
  \<open>length (searches d)\<close>.  The find ID of the new search and the clock reading that a
  callback may take are arguments.  The two branches on the startup shortlist are
  definitions of their own, given the state with the new search at position \<open>i\<close>.
\<close>

definition find_from_routing_table ::
  "env \<Rightarrow> dht \<Rightarrow> int \<Rightarrow> nat \<Rightarrow> pyval \<Rightarrow> bool \<Rightarrow> callback
     \<Rightarrow> error option \<times> dht \<times> find_return \<times> effect list" where
  "find_from_routing_table E d1 now i key findValue cb =
     (let closeNodes = findCloseNodes E (routingTable d1) key (alpha E) (settings_guid d1);
          shortlist = map (\<lambda>closeNode. [c_ip closeNode, c_port closeNode, c_guid closeNode])
                        closeNodes;
          new_search = searches d1 ! i;
          s1 = (if length shortlist > 0 then add_to_shortlist new_search shortlist
                else new_search);
          d2 = d1\<lparr>searches := (searches d1)[i := s1]\<rparr>;
          touch = (if key \<noteq> settings_guid d1 then [TouchKBucket key] else [])
      in if length (s_shortlist s1) = 0 then
           (if cb \<noteq> CbNone then
              (case invoke_callback E d2 now cb (PList []) of
                 (Some e, d3, effs) \<Rightarrow> (Some e, d3, ReturnNone, touch @ effs)
               | (None, d3, effs) \<Rightarrow>
                   (case searchIteration_at E d3 i findValue of
                      (err, d4, effs') \<Rightarrow> (err, d4, ReturnNone, touch @ effs @ effs')))
            else (None, d2, EmptyList, touch))
         else
           (case searchIteration_at E d2 i findValue of
              (err, d3, effs) \<Rightarrow> (err, d3, ReturnNone, touch @ effs)))"

definition find_from_startup ::
  "env \<Rightarrow> dht \<Rightarrow> nat \<Rightarrow> pyval list list \<Rightarrow> bool
     \<Rightarrow> error option \<times> dht \<times> find_return \<times> effect list" where
  "find_from_startup E d1 i startupShortlist findValue =
     (let d2 = d1\<lparr>searches := (searches d1)[i := (searches d1 ! i)\<lparr>s_shortlist := startupShortlist\<rparr>]\<rparr>
      in case searchIteration_at E d2 i findValue of
           (err, d3, effs) \<Rightarrow> (err, d3, ReturnNone, effs))"

definition iterativeFind ::
  "env \<Rightarrow> dht \<Rightarrow> int \<Rightarrow> pyval \<Rightarrow> pyval \<Rightarrow> pyval list list option \<Rightarrow> pyval \<Rightarrow> callback
     \<Rightarrow> error option \<times> dht \<times> find_return \<times> effect list" where
  "iterativeFind E d now findID key startupShortlist call cb =
     (let new_search = new_DHTSearch key call cb findID;
          i = length (searches d);
          d1 = d\<lparr>searches := searches d @ [new_search]\<rparr>;
          findValue = (call \<noteq> PStr ''findNode'')
      in if \<not> findValue \<and> key = settings_guid d then (None, d1, LookingForYourself, [])
         else
           (case (if \<not> findValue then find (\<lambda>node. c_guid node = key) (activePeers d1)
                  else None) of
              Some node \<Rightarrow> (None, d1, ActivePeer node, [])
            | None \<Rightarrow>
                (case startupShortlist of
                   None \<Rightarrow> find_from_routing_table E d1 now i key findValue cb
                 | Some sl \<Rightarrow>
                     if sl = [] then find_from_routing_table E d1 now i key findValue cb
                     else find_from_startup E d1 i sl findValue)))"

text \<open>
  \<^verbatim>\<open>iterativeFindNode(self, key, callback=None)\<close> is \<^verbatim>\<open>self._iterativeFind(key,
  callback=callback)\<close> and \<^verbatim>\<open>iterativeFindValue(self, key, callback=None)\<close> is
  \<^verbatim>\<open>self._iterativeFind(key, call='findValue', callback=callback)\<close>; both drop what it
  returns.
\<close>

definition iterativeFindNode ::
  "env \<Rightarrow> dht \<Rightarrow> int \<Rightarrow> pyval \<Rightarrow> pyval \<Rightarrow> callback \<Rightarrow> error option \<times> dht \<times> effect list" where
  "iterativeFindNode E d now findID key cb =
     (case iterativeFind E d now findID key None (PStr ''findNode'') cb of
        (err, d', r, effs) \<Rightarrow> (err, d', effs))"

definition iterativeFindValue ::
  "env \<Rightarrow> dht \<Rightarrow> int \<Rightarrow> pyval \<Rightarrow> pyval \<Rightarrow> callback \<Rightarrow> error option \<times> dht \<times> effect list" where
  "iterativeFindValue E d now findID key cb =
     (case iterativeFind E d now findID key None (PStr ''findValue'') cb of
        (err, d', r, effs) \<Rightarrow> (err, d', effs))"

section \<open>iterativeStore\<close>

text \<open>
  \<^verbatim>\<open>
  def iterativeStore(self, transport, key, value_to_store=None, originalPublisherID=None,
                     age=0):
      if originalPublisherID is None:
          originalPublisherID = self._transport._guid
      if value_to_store:
          self.iterativeFindNode(key, lambda msg, findKey=key, value=value_to_store,
                                 originalPublisherID=originalPublisherID,
                                 age=age: self.storeKeyValue(msg, findKey, value,
                                                             originalPublisherID, age))
  \<close>
\<close>

definition iterativeStore_callback :: "dht \<Rightarrow> pyval \<Rightarrow> pyval \<Rightarrow> pyval \<Rightarrow> int \<Rightarrow> callback" where
  "iterativeStore_callback d key value_to_store originalPublisherID age =
     CbStoreKeyValue key value_to_store
       (if originalPublisherID = PNone then transport_guid d else originalPublisherID) age"

definition iterativeStore ::
  "env \<Rightarrow> dht \<Rightarrow> int \<Rightarrow> pyval \<Rightarrow> pyval \<Rightarrow> pyval \<Rightarrow> pyval \<Rightarrow> int
     \<Rightarrow> error option \<times> dht \<times> effect list" where
  "iterativeStore E d now findID key value_to_store originalPublisherID age =
     (if truthy value_to_store then
        iterativeFindNode E d now findID key
          (iterativeStore_callback d key value_to_store originalPublisherID age)
      else (None, d, []))"

section \<open>The republish sweep\<close>

text \<open>
  The body of the loop of \<^verbatim>\<open>_threadedRepublishData\<close> for one key that
  \<^verbatim>\<open>self._dataStore.keys()\<close> yielded, at the clock reading \<open>now\<close> of that pass:
  \<^verbatim>\<open>
  if key == 'nodeState':
      continue
  now = int(time.time())
  key = key.encode('hex')
  originalPublisherID = self._dataStore.originalPublisherID(key)
  age = now - self._dataStore.originalPublishTime(key) + 500000
  if originalPublisherID == self._settings['guid']:
      if age >= constants.dataExpireTimeout:
          self.iterativeStore(self._transport, key, self._dataStore[key])
  else:
      if age >= constants.dataExpireTimeout:
          expiredKeys.append(key)
      elif now - self._dataStore.lastPublished(key) >= constants.replicateInterval:
          self.iterativeStore(self._transport, key, self._dataStore[key],
                              originalPublisherID, age)
  \<close>
  Modelled from the spec: the \<^verbatim>\<open>datastore\<close> module is missing; the metadata accessors of
  section 4.3 read the fields of the entry of a key.  Subtracting the publish time of a
  key without an entry from the clock raises TypeError.  A call of \<^verbatim>\<open>iterativeStore\<close> is
  recorded with its arguments (a publisher left out is None, an age left out is 0); it
  works on the entry of its own key only.
\<close>

datatype sweep_action =
    Skipped
  | Untouched
  | Republished pyval pyval
  | MarkedExpired pyval
  | Replicated pyval pyval pyval int

definition republish_action :: "env \<Rightarrow> dht \<Rightarrow> int \<Rightarrow> string \<Rightarrow> error + sweep_action" where
  "republish_action E d now key0 =
     (if key0 = ''nodeState'' then Inr Skipped
      else
        (let key = PStr (encode_hex key0) in
         case dataStore d key of
           None \<Rightarrow> Inl TypeError
         | Some e \<Rightarrow>
             (let originalPublisherID = e_originalPublisherID e;
                  age = now - e_originallyPublished e + 500000
              in if originalPublisherID = settings_guid d then
                   (if age \<ge> dataExpireTimeout E
                    then Inr (Republished key (getItem (dataStore d) key))
                    else Inr Untouched)
                 else if age \<ge> dataExpireTimeout E then Inr (MarkedExpired key)
                 else if now - e_lastPublished e \<ge> replicateInterval E
                 then Inr (Replicated key (getItem (dataStore d) key) originalPublisherID age)
                 else Inr Untouched)))"

fun republish_loop ::
  "env \<Rightarrow> dht \<Rightarrow> (string \<times> int) list \<Rightarrow> pyval list \<Rightarrow> error + (pyval list \<times> effect list)" where
  "republish_loop E d [] expiredKeys = Inr (expiredKeys, [])"
| "republish_loop E d ((key0, now) # rest) expiredKeys =
     (case republish_action E d now key0 of
        Inl e \<Rightarrow> Inl e
      | Inr act \<Rightarrow>
          (let calls = (case act of
                          Republished key val \<Rightarrow> [IterativeStore key val PNone 0]
                        | Replicated key val originalPublisherID age \<Rightarrow>
                            [IterativeStore key val originalPublisherID age]
                        | _ \<Rightarrow> []);
               expiredKeys' = (case act of
                                 MarkedExpired key \<Rightarrow> expiredKeys @ [key]
                               | _ \<Rightarrow> expiredKeys)
           in case republish_loop E d rest expiredKeys' of
                Inl e \<Rightarrow> Inl e
              | Inr (expired, effs) \<Rightarrow> Inr (expired, calls @ effs)))"

text \<open>
  \<^verbatim>\<open>_threadedRepublishData\<close>: the loop over the keys (each with the clock reading of its
  pass), then
  \<^verbatim>\<open>
  for key in expiredKeys:
      del self._dataStore[key]
  \<close>
\<close>

definition threadedRepublishData ::
  "env \<Rightarrow> dht \<Rightarrow> (string \<times> int) list \<Rightarrow> error + (dht \<times> effect list)" where
  "threadedRepublishData E d keys =
     (case republish_loop E d keys [] of
        Inl e \<Rightarrow> Inl e
      | Inr (expiredKeys, effs) \<Rightarrow>
          Inr (d\<lparr>dataStore := foldl delItem (dataStore d) expiredKeys\<rparr>, effs))"

section \<open>Receiving findNodeResponse\<close>

text \<open>
  \<^verbatim>\<open>
  for idx, peer in enumerate(self._activePeers):
      if peer._guid == msg['senderGUID']:
          peer._nickname = msg['senderNick']
          peer._pub = msg['pubkey']
          self._activePeers[idx] = peer
  \<close>
\<close>

fun update_active_peers :: "message \<Rightarrow> contact list \<Rightarrow> error option \<times> contact list" where
  "update_active_peers msg [] = (None, [])"
| "update_active_peers msg (peer # rest) =
     (case msg_get msg ''senderGUID'' of
        Inl e \<Rightarrow> (Some e, peer # rest)
      | Inr senderGUID \<Rightarrow>
          if c_guid peer = senderGUID then
            (case msg_get msg ''senderNick'' of
               Inl e \<Rightarrow> (Some e, peer # rest)
             | Inr nick \<Rightarrow>
                 (case msg_get msg ''pubkey'' of
                    Inl e \<Rightarrow> (Some e, peer\<lparr>c_nickname := nick\<rparr> # rest)
                  | Inr pub \<Rightarrow>
                      (case update_active_peers msg rest of
                         (err, rest') \<Rightarrow> (err, peer\<lparr>c_nickname := nick, c_pub := pub\<rparr> # rest'))))
          else
            (case update_active_peers msg rest of (err, rest') \<Rightarrow> (err, peer # rest')))"

text \<open>
  The two loops that end searches have the shape
  \<^verbatim>\<open>
  for idx, s in enumerate(self._searches):
      if s._findID == msg['findID']:
          (call the callback)
          del self._searches[idx]
  \<close>
  Deleting entry \<open>idx\<close> moves the entry behind it to position \<open>idx\<close>, which the iteration
  has passed: the entry that follows a deleted one is not examined.  \<open>earlier\<close> holds the
  entries passed, the list argument those to come; \<open>call\<close> is the call of the callback.
\<close>

fun end_searches ::
  "(dht \<Rightarrow> DHTSearch \<Rightarrow> error option \<times> dht \<times> effect list) \<Rightarrow> message \<Rightarrow> dht
     \<Rightarrow> DHTSearch list \<Rightarrow> DHTSearch list \<Rightarrow> error option \<times> dht \<times> effect list" where
  "end_searches call msg d earlier [] = (None, d, [])"
| "end_searches call msg d earlier [s] =
     (case msg_get msg ''findID'' of
        Inl e \<Rightarrow> (Some e, d, [])
      | Inr findID \<Rightarrow>
          if s_findID s = findID then
            (case call d s of
               (Some e, d', effs) \<Rightarrow> (Some e, d', effs)
             | (None, d', effs) \<Rightarrow> (None, d'\<lparr>searches := earlier\<rparr>, effs))
          else (None, d, []))"
| "end_searches call msg d earlier (s # t # rest) =
     (case msg_get msg ''findID'' of
        Inl e \<Rightarrow> (Some e, d, [])
      | Inr findID \<Rightarrow>
          if s_findID s = findID then
            (case call d s of
               (Some e, d', effs) \<Rightarrow> (Some e, d', effs)
             | (None, d', effs) \<Rightarrow>
                 (case end_searches call msg (d'\<lparr>searches := earlier @ t # rest\<rparr>)
                         (earlier @ [t]) rest of
                    (err, d'', effs') \<Rightarrow> (err, d'', effs @ effs')))
          else end_searches call msg d (earlier @ [s]) (t # rest))"

text \<open>
  \<^verbatim>\<open>
  for idx, probe in enumerate(search._active_probes):
      if probe == search_tuple:
          del search._active_probes[idx]
  \<close>
\<close>

fun del_probes :: "pyval list \<Rightarrow> pyval list list \<Rightarrow> pyval list list" where
  "del_probes search_tuple [] = []"
| "del_probes search_tuple [probe] = (if probe = search_tuple then [] else [probe])"
| "del_probes search_tuple (probe # next # rest) =
     (if probe = search_tuple then next # del_probes search_tuple rest
      else probe # del_probes search_tuple (next # rest))"

text \<open>
  \<^verbatim>\<open>
  for node in msg['foundNodes']:
      if node[0] != self._transport._guid and node[2] != self._transport.pubkey \
              and node[1] != self._transport._uri:
          self.extendShortlist(transport, msg['findID'], [node])
  \<close>
\<close>

fun extend_with_found ::
  "env \<Rightarrow> dht \<Rightarrow> pyval \<Rightarrow> pyval list \<Rightarrow> error option \<times> dht \<times> effect list" where
  "extend_with_found E d findID [] = (None, d, [])"
| "extend_with_found E d findID (node # rest) =
     (case py_index node 0 of Inl e \<Rightarrow> (Some e, d, []) | Inr n0 \<Rightarrow>
      if n0 \<noteq> transport_guid d then
        (case py_index node 2 of Inl e \<Rightarrow> (Some e, d, []) | Inr n2 \<Rightarrow>
         if n2 \<noteq> transport_pubkey d then
           (case py_index node 1 of Inl e \<Rightarrow> (Some e, d, []) | Inr n1 \<Rightarrow>
            if n1 \<noteq> transport_uri d then
              (case extendShortlist E d findID [node] of
                 (Some e, d', effs) \<Rightarrow> (Some e, d', effs)
               | (None, d', effs) \<Rightarrow>
                   (case extend_with_found E d' findID rest of
                      (err, d'', effs') \<Rightarrow> (err, d'', effs @ effs')))
            else extend_with_found E d findID rest)
         else extend_with_found E d findID rest)
      else extend_with_found E d findID rest)"

text \<open>
  The branch of a response that carries \<^verbatim>\<open>foundNode\<close>:
  \<^verbatim>\<open>
  foundNode = msg['foundNode']
  if foundNode[2] != self._transport._guid:
      if len(foundNode) == 3:
          foundNode.append('')
      self.add_peer(self._transport, foundNode[1], foundNode[2], foundNode[0], foundNode[3])
  for idx, search in enumerate(self._searches):
      if search._findID == msg['findID']:
          if search._callback is not None:
              search._callback((foundNode[2], foundNode[1], foundNode[0], foundNode[3]))
          del self._searches[idx]
  \<close>
\<close>

fun py_len :: "pyval \<Rightarrow> error + nat" where
  "py_len (PStr s) = Inr (length s)"
| "py_len (PTuple xs) = Inr (length xs)"
| "py_len (PList xs) = Inr (length xs)"
| "py_len (PDict kvs) = Inr (length kvs)"
| "py_len _ = Inl TypeError"

definition foundNode_callback ::
  "env \<Rightarrow> int \<Rightarrow> pyval \<Rightarrow> dht \<Rightarrow> DHTSearch \<Rightarrow> error option \<times> dht \<times> effect list" where
  "foundNode_callback E now foundNode d search =
     (if s_callback search \<noteq> CbNone then
        (case py_index foundNode 2 of Inl e \<Rightarrow> (Some e, d, []) | Inr f2 \<Rightarrow>
         case py_index foundNode 1 of Inl e \<Rightarrow> (Some e, d, []) | Inr f1 \<Rightarrow>
         case py_index foundNode 0 of Inl e \<Rightarrow> (Some e, d, []) | Inr f0 \<Rightarrow>
         case py_index foundNode 3 of Inl e \<Rightarrow> (Some e, d, []) | Inr f3 \<Rightarrow>
           invoke_callback E d now (s_callback search) (PTuple [f2, f1, f0, f3]))
      else (None, d, []))"

definition foundNode_add_peer :: "env \<Rightarrow> dht \<Rightarrow> pyval \<Rightarrow> (error option \<times> dht \<times> effect list) \<times> pyval" where
  "foundNode_add_peer E d foundNode =
     (case py_index foundNode 2 of Inl e \<Rightarrow> ((Some e, d, []), foundNode) | Inr f2 \<Rightarrow>
      if f2 \<noteq> transport_guid d then
        (case py_len foundNode of Inl e \<Rightarrow> ((Some e, d, []), foundNode) | Inr n \<Rightarrow>
         case (if n = 3 then py_append foundNode (PStr []) else Inr foundNode) of
           Inl e \<Rightarrow> ((Some e, d, []), foundNode)
         | Inr foundNode' \<Rightarrow>
             (case py_index foundNode' 1 of Inl e \<Rightarrow> ((Some e, d, []), foundNode') | Inr a1 \<Rightarrow>
              case py_index foundNode' 2 of Inl e \<Rightarrow> ((Some e, d, []), foundNode') | Inr a2 \<Rightarrow>
              case py_index foundNode' 0 of Inl e \<Rightarrow> ((Some e, d, []), foundNode') | Inr a0 \<Rightarrow>
              case py_index foundNode' 3 of Inl e \<Rightarrow> ((Some e, d, []), foundNode') | Inr a3 \<Rightarrow>
                (add_peer E d a1 a2 a0 a3, foundNode')))
      else ((None, d, []), foundNode))"

definition on_foundNode :: "env \<Rightarrow> dht \<Rightarrow> int \<Rightarrow> message \<Rightarrow> pyval \<Rightarrow> error option \<times> dht \<times> effect list" where
  "on_foundNode E d now msg foundNode =
     (case foundNode_add_peer E d foundNode of
        ((Some e, d1, effs), foundNode') \<Rightarrow> (Some e, d1, effs)
      | ((None, d1, effs), foundNode') \<Rightarrow>
          (case end_searches (foundNode_callback E now foundNode') msg d1 [] (searches d1) of
             (err, d2, effs') \<Rightarrow> (err, d2, effs @ effs')))"

text \<open>
  The branch of a response that carries neither \<^verbatim>\<open>foundKey\<close> nor \<^verbatim>\<open>foundNode\<close>:
  \<^verbatim>\<open>
  findID = msg['findID']
  (search := the last search of that find ID; without one, return)
  shortlist_length = len(search._shortlist)
  (the loop over msg['foundNodes'])
  search_ip = urlparse(msg['uri']).hostname
  search_port = urlparse(msg['uri']).port
  search_guid = msg['senderGUID']
  search_tuple = (search_ip, search_port, search_guid)
  (the loop that deletes search_tuple from search._active_probes)
  if search_tuple not in search._already_contacted:
      search._already_contacted.append(search_tuple)
  if len(search._shortlist) > shortlist_length:
      self._searchIteration(search)
  else:
      if search._callback is not None:
          search._callback(search._shortlist)
  \<close>
\<close>

definition on_foundNodes :: "env \<Rightarrow> dht \<Rightarrow> int \<Rightarrow> message \<Rightarrow> error option \<times> dht \<times> effect list" where
  "on_foundNodes E d now msg =
     (case msg_get msg ''findID'' of Inl e \<Rightarrow> (Some e, d, []) | Inr findID \<Rightarrow>
      case find_search (searches d) findID 0 None of
        None \<Rightarrow> (None, d, [])
      | Some i \<Rightarrow>
          (let shortlist_length = length (s_shortlist (searches d ! i)) in
           case msg_get msg ''foundNodes'' of Inl e \<Rightarrow> (Some e, d, []) | Inr foundNodes \<Rightarrow>
           case py_iter foundNodes of Inl e \<Rightarrow> (Some e, d, []) | Inr nodes \<Rightarrow>
           case extend_with_found E d findID nodes of
             (Some e, d1, effs) \<Rightarrow> (Some e, d1, effs)
           | (None, d1, effs) \<Rightarrow>
               (case msg_get msg ''uri'' of Inl e \<Rightarrow> (Some e, d1, effs) | Inr uri \<Rightarrow>
                case msg_get msg ''senderGUID'' of Inl e \<Rightarrow> (Some e, d1, effs)
                | Inr search_guid \<Rightarrow>
                  (let search_tuple = [urlparse_hostname E uri, urlparse_port E uri, search_guid];
                       search = searches d1 ! i;
                       search1 = search\<lparr>s_active_probes :=
                                           del_probes search_tuple (s_active_probes search)\<rparr>;
                       search2 = (if search_tuple \<notin> set (s_already_contacted search1)
                                  then search1\<lparr>s_already_contacted :=
                                                  s_already_contacted search1 @ [search_tuple]\<rparr>
                                  else search1);
                       d2 = d1\<lparr>searches := (searches d1)[i := search2]\<rparr>
                   in if length (s_shortlist search2) > shortlist_length then
                        (case searchIteration_at E d2 i False of
                           (err, d3, effs') \<Rightarrow> (err, d3, effs @ effs'))
                      else if s_callback search2 \<noteq> CbNone then
                        (case invoke_callback E d2 now (s_callback search2)
                                (PList (map PTuple (s_shortlist search2))) of
                           (err, d3, effs') \<Rightarrow> (err, d3, effs @ effs'))
                      else (None, d2, effs)))))"

text \<open>
  \<^verbatim>\<open>on_findNodeResponse(self, transport, msg)\<close>: the active peer record of the sender is
  updated, then the response is treated by what it carries.  On \<^verbatim>\<open>foundKey\<close> the callback
  of every search of that find ID is called with the value, without a test against
  None, and the search is deleted.
\<close>

definition on_findNodeResponse ::
  "env \<Rightarrow> dht \<Rightarrow> int \<Rightarrow> message \<Rightarrow> error option \<times> dht \<times> effect list" where
  "on_findNodeResponse E d now msg =
     (case update_active_peers msg (activePeers d) of
        (Some e, peers) \<Rightarrow> (Some e, d\<lparr>activePeers := peers\<rparr>, [])
      | (None, peers) \<Rightarrow>
          (let d1 = d\<lparr>activePeers := peers\<rparr> in
           case map_of msg ''foundKey'' of
             Some foundKey \<Rightarrow>
               end_searches (\<lambda>d' s. invoke_callback E d' now (s_callback s) foundKey) msg d1 []
                 (searches d1)
           | None \<Rightarrow>
               (case map_of msg ''foundNode'' of
                  Some foundNode \<Rightarrow> on_foundNode E d1 now msg foundNode
                | None \<Rightarrow> on_foundNodes E d1 now msg)))"

section \<open>Sequences of calls\<close>

text \<open>
  The methods of a DHT object that change its state, as events, and the state a method
  leaves behind (also when it raises, with what it had changed by then).  The republish
  sweep records its calls of \<open>iterativeStore\<close>; they are events of their own.  A run is a
  sequence of events, each applied to the state the one before has left.  The list of
  searches is written in three places of the source: the append of \<^verbatim>\<open>_iterativeFind\<close> and
  the two deletions of \<^verbatim>\<open>on_findNodeResponse\<close>; the other methods of the class reach it
  through the methods below (\<^verbatim>\<open>start\<close>, \<^verbatim>\<open>find_listings\<close>, \<^verbatim>\<open>find_listings_by_keyword\<close> and
  the bucket refresh call \<^verbatim>\<open>_iterativeFind\<close>), and the handshake callbacks of \<^verbatim>\<open>add_peer\<close>
  and \<^verbatim>\<open>add_seed\<close> touch the routing table and the list of known nodes only.
\<close>

datatype event =
    EvFindNode message
  | EvFindNodeResponse int message
  | EvStoreValue int message
  | EvStore int pyval pyval pyval int "(string \<times> pyval) list"
  | EvIterativeFind int pyval pyval "pyval list list option" pyval callback
  | EvIterativeStore int pyval pyval pyval pyval int
  | EvExtendShortlist pyval "pyval list"
  | EvAddPeer pyval pyval pyval pyval
  | EvRepublish "(string \<times> int) list"

fun step :: "env \<Rightarrow> dht \<Rightarrow> event \<Rightarrow> dht" where
  "step E d (EvFindNode msg) = fst (snd (on_find_node E d msg))"
| "step E d (EvFindNodeResponse now msg) = fst (snd (on_findNodeResponse E d now msg))"
| "step E d (EvStoreValue now msg) =
     (case on_storeValue d now msg of Inl e \<Rightarrow> d | Inr d' \<Rightarrow> d')"
| "step E d (EvStore now key val originalPublisherID age kwargs) =
     (case store d now key val originalPublisherID age (map_of kwargs) of
        Inl e \<Rightarrow> d | Inr r \<Rightarrow> snd r)"
| "step E d (EvIterativeFind now findID key startupShortlist call cb) =
     fst (snd (iterativeFind E d now findID key startupShortlist call cb))"
| "step E d (EvIterativeStore now findID key val originalPublisherID age) =
     fst (snd (iterativeStore E d now findID key val originalPublisherID age))"
| "step E d (EvExtendShortlist findID foundNodes) =
     fst (snd (extendShortlist E d findID foundNodes))"
| "step E d (EvAddPeer uri pubkey guid nickname) =
     fst (snd (add_peer E d uri pubkey guid nickname))"
| "step E d (EvRepublish keys) =
     (case threadedRepublishData E d keys of Inl e \<Rightarrow> d | Inr r \<Rightarrow> fst r)"

definition run :: "env \<Rightarrow> dht \<Rightarrow> event list \<Rightarrow> dht" where
  "run E d evs = foldl (step E) d evs"

text \<open>The find ID that a findNodeResponse event answers, if it is one that names any.\<close>

fun answers :: "event \<Rightarrow> pyval option" where
  "answers (EvFindNodeResponse now msg) = map_of msg ''findID''"
| "answers _ = None"

section \<open>Notions used in the properties\<close>

text \<open>A findNode probe among the effects: a message of type findNode handed to a peer.\<close>

fun is_probe :: "effect \<Rightarrow> bool" where
  "is_probe (Send guid m) = (map_of m ''type'' = Some (PStr ''findNode''))"
| "is_probe _ = False"

definition probes :: "effect list \<Rightarrow> nat" where
  "probes effs = length (filter is_probe effs)"

text \<open>What the store loop of \<open>storeKeyValue\<close> does for one node: a crypto peer and a
  handshake when the routing table has no contact of that guid, then the store message.\<close>

definition store_to_node :: "dht \<Rightarrow> message \<Rightarrow> pyval list \<Rightarrow> effect list" where
  "store_to_node d m node =
     (case getContact (routingTable d) (node ! 2) of
        None \<Rightarrow> [GetCryptoPeerTcp (node ! 2) (node ! 0) (node ! 1), StartHandshake (node ! 2),
                  Send (node ! 2) m]
      | Some peer \<Rightarrow> [Send (node ! 2) m])"


section \<open>A concrete node\<close>

text \<open>
  A configuration to evaluate the model on: the conventional constants (k = 20,
  alpha = 3, expiry after 24 hours, replication every hour), a JSON reader that knows the
  three index operations used below and rejects every other text, a uri reader for the
  addresses used below, identifiers read as numbers by their length, and a node \<open>me\<close>
  with an empty routing table and an empty store.
\<close>

definition json_ex :: "string \<Rightarrow> pyval option" where
  "json_ex s =
     (if s = ''{\"keyword_index_add\": \"L1\"}''
        then Some (PDict [(''keyword_index_add'', PStr ''L1'')])
      else if s = ''{\"keyword_index_add\": \"L2\"}''
        then Some (PDict [(''keyword_index_add'', PStr ''L2'')])
      else if s = ''{\"keyword_index_remove\": \"L1\"}''
        then Some (PDict [(''keyword_index_remove'', PStr ''L1'')])
      else None)"

definition hostname_ex :: "pyval \<Rightarrow> pyval" where
  "hostname_ex uri =
     (if uri = PStr ''tcp://hostA:12345'' then PStr ''hostA''
      else if uri = PStr ''tcp://hostB:12345'' then PStr ''hostB''
      else if uri = PStr ''tcp://hostC:12345'' then PStr ''hostC''
      else if uri = PStr ''tcp://hostX:12345'' then PStr ''hostX''
      else if uri = PStr ''tcp://me:12345'' then PStr ''me''
      else PNone)"

definition port_ex :: "pyval \<Rightarrow> pyval" where
  "port_ex uri = (if hostname_ex uri = PNone then PNone else PInt 12345)"

definition guid_int_ex :: "pyval \<Rightarrow> nat" where
  "guid_int_ex g = (case g of PStr s \<Rightarrow> length s | _ \<Rightarrow> 0)"

definition E_ex :: env where
  "E_ex = \<lparr>k = 20, alpha = 3, dataExpireTimeout = 86400, replicateInterval = 3600,
            json_loads = json_ex, urlparse_hostname = hostname_ex, urlparse_port = port_ex,
            guid_int = guid_int_ex, check_port = (\<lambda>guid uri. True)\<rparr>"

definition d_ex :: dht where
  "d_ex = \<lparr>settings_guid = PStr ''me'', transport_guid = PStr ''me'',
            transport_uri = PStr ''tcp://me:12345'', transport_pubkey = PStr ''pk-me'',
            transport_nickname = PStr ''nick-me'', market_id = PInt 1,
            routingTable = [], dataStore = Map.empty, searches = [], activePeers = [],
            knownNodes = []\<rparr>"

definition peer_ex :: "string \<Rightarrow> string \<Rightarrow> contact" where
  "peer_ex g host =
     \<lparr>c_guid = PStr g, c_address = PStr (''tcp://'' @ host @ '':12345''),
      c_pub = PStr (''pk-'' @ g), c_nickname = PStr (''nick-'' @ g),
      c_ip = PStr host, c_port = PInt 12345\<rparr>"

text \<open>
  The node with a store of two values published at time 1000, one by the node itself
  and one by another node.
\<close>

definition d_sweep :: dht where
  "d_sweep = d_ex\<lparr>dataStore :=
     [PStr (encode_hex ''k1'') \<mapsto>
        \<lparr>e_value = PStr ''v1'', e_lastPublished = 1000, e_originallyPublished = 1000,
         e_originalPublisherID = PStr ''me'', e_market_id = PInt 1\<rparr>,
      PStr (encode_hex ''k2'') \<mapsto>
        \<lparr>e_value = PStr ''v2'', e_lastPublished = 1000, e_originallyPublished = 1000,
         e_originalPublisherID = PStr ''other'', e_market_id = PInt 1\<rparr>]\<rparr>"

text \<open>
  Two store messages for the key \<open>K\<close>, from two writers, each carrying one
  \<^verbatim>\<open>keyword_index_add\<close> operation; and the node after \<^verbatim>\<open>storeKeyValue\<close> has run on it for
  the first operation given as JSON text, with no nodes to replicate to.
\<close>

definition msg_L1 :: message where
  "msg_L1 = [(''type'', PStr ''store''), (''key'', PStr ''K''),
             (''value'', PDict [(''keyword_index_add'', PStr ''L1'')]),
             (''originalPublisherID'', PStr ''writer1''), (''age'', PInt 0)]"

definition msg_L2 :: message where
  "msg_L2 = [(''type'', PStr ''store''), (''key'', PStr ''K''),
             (''value'', PDict [(''keyword_index_add'', PStr ''L2'')]),
             (''originalPublisherID'', PStr ''writer2''), (''age'', PInt 0)]"

definition d_L1 :: dht where
  "d_L1 = fst (snd (storeKeyValue E_ex d_ex 1000 (PList []) (PStr ''K'')
                      (PStr ''{\"keyword_index_add\": \"L1\"}'') (PStr ''me'') 0))"

text \<open>
  The node with three contacts in its routing table, a findNode message of the contact
  \<open>a\<close> for a key that is no contact, and a findNode message that names the node itself
  as its sender.
\<close>

definition d_rt :: dht where
  "d_rt = d_ex\<lparr>routingTable := [peer_ex ''a'' ''hostA'', peer_ex ''bb'' ''hostB'',
                                  peer_ex ''ccc'' ''hostC'']\<rparr>"

definition msg_find :: message where
  "msg_find = [(''type'', PStr ''findNode''), (''uri'', PStr ''tcp://hostA:12345''),
               (''senderGUID'', PStr ''a''), (''key'', PStr ''kkkkkkk''),
               (''findValue'', PBool False), (''senderNick'', PStr ''nick-a''),
               (''findID'', PStr ''f1''), (''pubkey'', PStr ''pk-a'')]"

definition msg_find_self :: message where
  "msg_find_self = [(''type'', PStr ''findNode''), (''uri'', PStr ''tcp://me:12345''),
                    (''senderGUID'', PStr ''me''), (''key'', PStr ''kkkkkkk''),
                    (''findValue'', PBool False), (''senderNick'', PStr ''nick-me''),
                    (''findID'', PStr ''f1''), (''pubkey'', PStr ''pk-me'')]"

text \<open>
  The node with three contacts, with the JSON text of a removal from the keyword index,
  and a list of three nodes that names the node itself in the middle.
\<close>

definition nodes_with_self :: pyval where
  "nodes_with_self =
     PList [PTuple [PStr ''hostA'', PInt 12345, PStr ''a''],
            PTuple [PStr ''me'', PInt 12345, PStr ''me''],
            PTuple [PStr ''hostB'', PInt 12345, PStr ''bb'']]"





definition msg_found :: message where
  "msg_found = [(''type'', PStr ''findNodeResponse''), (''senderGUID'', PStr ''a''),
                (''senderNick'', PStr ''nick-a''), (''uri'', PStr ''tcp://hostA:12345''),
                (''pubkey'', PStr ''pk-a''),
                (''foundNodes'', PList [PTuple [PStr ''xxxx'', PStr ''tcp://hostX:12345'',
                                                PStr ''pk-xxxx'', PStr ''nick-xxxx'']]),
                (''findID'', PStr ''f1'')]"

section \<open>Properties of dedupe\<close>

lemma dedupe_loop_result: "dedupe_loop xs seen res = res @ dedupe_loop xs seen []"
proof (induction xs arbitrary: seen res)
  case Nil
  show ?case by simp
next
  case (Cons x xs)
  show ?case
  proof (cases "set x \<in> seen")
    case True
    then show ?thesis using Cons.IH [of seen res] by simp
  next
    case False
    then show ?thesis
      using Cons.IH [of "insert (set x) seen" "res @ [x]"] Cons.IH [of "insert (set x) seen" "[x]"]
      by simp
  qed
qed

lemma dedupe_loop_append:
  "dedupe_loop (xs @ ys) seen res = dedupe_loop ys (seen \<union> set ` set xs) (dedupe_loop xs seen res)"
proof (induction xs arbitrary: seen res)
  case Nil
  show ?case by simp
next
  case (Cons x xs)
  show ?case
  proof (cases "set x \<in> seen")
    case True
    then have "seen \<union> set ` set (x # xs) = seen \<union> set ` set xs" by auto
    then show ?thesis using True Cons.IH [of seen res] by simp
  next
    case False
    have "insert (set x) seen \<union> set ` set xs = seen \<union> set ` set (x # xs)" by auto
    then show ?thesis using False Cons.IH [of "insert (set x) seen" "res @ [x]"]
      by (simp add: Let_def)
  qed
qed

lemma dedupe_snoc:
  "dedupe (xs @ [x]) = dedupe xs @ (if set x \<in> set ` set xs then [] else [x])"
  unfolding dedupe_def
  using dedupe_loop_result [of "[x]" "set ` set xs" "dedupe_loop xs {} []"]
  by (simp add: dedupe_loop_append)

lemma dedupe_index:
  "dedupe lst = map (nth lst) (filter (first_of_class lst) [0..<length lst])"
proof (induction lst rule: rev_induct)
  case Nil
  show ?case by (simp add: dedupe_def)
next
  case (snoc x xs)
  have a: "filter (first_of_class (xs @ [x])) [0..<length xs] = filter (first_of_class xs) [0..<length xs]"
    by (rule filter_cong) (auto simp: first_of_class_def nth_append)
  have b: "map (nth (xs @ [x])) (filter (first_of_class xs) [0..<length xs])
         = map (nth xs) (filter (first_of_class xs) [0..<length xs])"
    by (rule map_cong) (auto simp: nth_append)
  have c: "first_of_class (xs @ [x]) (length xs) \<longleftrightarrow> set x \<notin> set ` set xs"
    using nth_mem [of _ xs]
    by (auto simp: first_of_class_def nth_append in_set_conv_nth image_iff)
  show ?case
    by (simp add: dedupe_snoc a b c snoc.IH)
qed

text \<open>
  Claim C6, as amended.  For every list of tuples, \<open>dedupe\<close> returns the tuples at the
  positions whose set of components differs from that of every earlier position, in
  their order: it keeps the first occurrence of each class and removes every later
  tuple whose \<^emph>\<open>set\<close> of components equals that of an earlier one.  So \<open>(a, b)\<close> and
  \<open>(b, a)\<close> collapse to the first of the two, and so do \<open>(a, a, b)\<close> and \<open>(a, b, b)\<close>, whose
  component sets are equal although the multiplicities differ.
\<close>

theorem dedupe_keeps_first_of_each_component_set:
  "dedupe lst = map (nth lst) (filter (first_of_class lst) [0..<length lst])
   \<and> dedupe [[a, b], [b, a]] = [[a, b]]
   \<and> dedupe [[a, a, b], [a, b, b]] = [[a, a, b]]"
proof -
  have "dedupe [[a, b], [b, a]] = [[a, b]]"
    by (simp add: dedupe_def insert_commute)
  moreover have "dedupe [[a, a, b], [a, b, b]] = [[a, a, b]]"
    by (simp add: dedupe_def)
  ultimately show ?thesis using dedupe_index [of lst] by simp
qed

theorem dedupe_keeps_first_of_each_component_set_witness:
  "dedupe [[''a'', ''b''], [''b'', ''a''], [''c''], [''a'', ''a'', ''b'']]
     = [[''a'', ''b''], [''c'']]"
proof -
  let ?l = "[[''a'', ''b''], [''b'', ''a''], [''c''], [''a'', ''a'', ''b'']]"
  have f0: "first_of_class ?l 0"
    by (simp add: first_of_class_def)
  have f1: "\<not> first_of_class ?l (Suc 0)"
    by (auto simp: first_of_class_def)
  have f2: "first_of_class ?l (Suc (Suc 0))"
    by (auto simp: first_of_class_def less_Suc_eq)
  have f3: "\<not> first_of_class ?l (Suc (Suc (Suc 0)))"
    by (auto simp: first_of_class_def intro!: exI [of _ 0])
  have u: "[0..<4] = [0, Suc 0, Suc (Suc 0), Suc (Suc (Suc 0))]" by (simp add: upt_rec)
  show ?thesis
    using dedupe_keeps_first_of_each_component_set [of ?l "''a''" "''b''"] f0 f1 f2 f3
    by (simp add: u)
qed

text \<open>
  Claim C6 as it is stated asks that tuples with equal component sets and different
  multiplicities do not collapse.  The multisets of \<open>(1, 1, 2)\<close> and \<open>(1, 2, 2)\<close> differ,
  and \<open>dedupe\<close> removes the second tuple all the same.
\<close>

theorem dedupe_multiset_counterexample:
  "mset [1::nat, 1, 2] \<noteq> mset [1, 2, 2] \<and> dedupe [[1::nat, 1, 2], [1, 2, 2]] = [[1, 1, 2]]"
proof -
  have "count (mset [1::nat, 1, 2]) 1 \<noteq> count (mset [1::nat, 2, 2]) 1" by simp
  then have "mset [1::nat, 1, 2] \<noteq> mset [1, 2, 2]" by metis
  moreover have "dedupe [[1::nat, 1, 2], [1, 2, 2]] = [[1, 1, 2]]"
    by (simp add: dedupe_def)
  ultimately show ?thesis by simp
qed

section \<open>Properties of store\<close>

text \<open>
  Claim C7, as amended.  \<open>store\<close> raises TypeError exactly when \<open>originalPublisherID\<close> is
  None and the keyword arguments give no RPC node ID other than None, that is when
  \<^verbatim>\<open>_rpcNodeID\<close> is absent or is bound to None: the source reads both as
  \<^verbatim>\<open>rpcSenderID = None\<close>.  In every other case it binds the key in the local store to the
  value with last-published time \<open>now\<close>, originally-published time \<open>now - age\<close> and the
  publisher (the RPC node ID when \<open>originalPublisherID\<close> is None), and returns \<open>'OK'\<close>.
\<close>

theorem store_fails_iff_no_publisher:
  "(store d now key val originalPublisherID age kwargs = Inl TypeError
      \<longleftrightarrow> originalPublisherID = PNone \<and> rpcSenderID kwargs = PNone)
   \<and> (\<not> (originalPublisherID = PNone \<and> rpcSenderID kwargs = PNone) \<longrightarrow>
        store d now key val originalPublisherID age kwargs =
          Inr (PStr ''OK'',
               d\<lparr>dataStore := (dataStore d)(key \<mapsto>
                    \<lparr>e_value = val, e_lastPublished = now, e_originallyPublished = now - age,
                     e_originalPublisherID =
                       (if originalPublisherID = PNone then rpcSenderID kwargs
                        else originalPublisherID),
                     e_market_id = market_id d\<rparr>)\<rparr>))
   \<and> (rpcSenderID kwargs = PNone
        \<longleftrightarrow> kwargs ''_rpcNodeID'' = None \<or> kwargs ''_rpcNodeID'' = Some PNone)"
  by (auto simp: store_def setItem_def rpcSenderID_def split: option.splits)

theorem store_fails_iff_no_publisher_witness:
  "store d_ex 1000 (PStr ''K'') (PStr ''v'') PNone 60 Map.empty = Inl TypeError
   \<and> store d_ex 1000 (PStr ''K'') (PStr ''v'') PNone 60 [''_rpcNodeID'' \<mapsto> PStr ''peer'']
       = Inr (PStr ''OK'',
              d_ex\<lparr>dataStore := [PStr ''K'' \<mapsto>
                \<lparr>e_value = PStr ''v'', e_lastPublished = 1000, e_originallyPublished = 940,
                 e_originalPublisherID = PStr ''peer'', e_market_id = PInt 1\<rparr>]\<rparr>)"
  using store_fails_iff_no_publisher [of d_ex 1000 "PStr ''K''" "PStr ''v''" PNone 60 Map.empty]
        store_fails_iff_no_publisher [of d_ex 1000 "PStr ''K''" "PStr ''v''" PNone 60
           "[''_rpcNodeID'' \<mapsto> PStr ''peer'']"]
  by (simp add: rpcSenderID_def d_ex_def)

text \<open>
  Claim C7 as it is stated asks that \<open>store\<close> writes and returns \<open>'OK'\<close> whenever the
  keyword arguments supply \<^verbatim>\<open>_rpcNodeID\<close>.  Called without a publisher and with
  \<^verbatim>\<open>_rpcNodeID\<close> supplied and bound to None, \<open>store\<close> raises TypeError and writes nothing.
\<close>

theorem store_rpcNodeID_None_counterexample:
  "[''_rpcNodeID'' \<mapsto> PNone] ''_rpcNodeID'' \<noteq> None
   \<and> store d_ex 1000 (PStr ''K'') (PStr ''v'') PNone 60 [''_rpcNodeID'' \<mapsto> PNone]
       = Inl TypeError"
  by (simp add: store_def rpcSenderID_def)

section \<open>Properties of the republish sweep\<close>

lemma republish_action_nodeState: "republish_action E d now ''nodeState'' = Inr Skipped"
  by (simp add: republish_action_def)

lemma republish_loop_nodeState:
  "republish_loop E d ((''nodeState'', now) # rest) expiredKeys = republish_loop E d rest expiredKeys"
  by (simp add: republish_action_def split: sum.splits)

lemma republish_action_owned:
  assumes "key0 \<noteq> ''nodeState''"
    and "dataStore d (PStr (encode_hex key0)) = Some e"
    and "e_originalPublisherID e = settings_guid d"
  shows "republish_action E d now key0 =
           Inr (if now - e_originallyPublished e + 500000 \<ge> dataExpireTimeout E
                then Republished (PStr (encode_hex key0)) (e_value e) else Untouched)"
  using assms by (simp add: republish_action_def getItem_def)

lemma republish_action_replica:
  assumes "key0 \<noteq> ''nodeState''"
    and "dataStore d (PStr (encode_hex key0)) = Some e"
    and "e_originalPublisherID e \<noteq> settings_guid d"
  shows "republish_action E d now key0 =
           Inr (if now - e_originallyPublished e + 500000 \<ge> dataExpireTimeout E
                then MarkedExpired (PStr (encode_hex key0))
                else if now - e_lastPublished e \<ge> replicateInterval E
                then Replicated (PStr (encode_hex key0)) (e_value e) (e_originalPublisherID e)
                       (now - e_originallyPublished e + 500000)
                else Untouched)"
  using assms by (simp add: republish_action_def getItem_def)

text \<open>
  Claim C2 on the node \<open>d_sweep\<close>, swept at time 1000 with an expiry timeout of 86400
  seconds.  Both values were published at time 1000, so their age (the clock minus the
  originally-published time) is 0 and below the timeout; the claim asks that neither be
  re-stored or deleted.  The sweep adds 500000 to the age before it compares: it calls
  \<open>iterativeStore\<close> for the value the node owns, and it deletes the value of the other
  publisher.
\<close>

theorem sweep_expires_fresh_values:
  "republish_action E_ex d_sweep 1000 ''k1''
     = Inr (Republished (PStr (encode_hex ''k1'')) (PStr ''v1''))
   \<and> republish_action E_ex d_sweep 1000 ''k2'' = Inr (MarkedExpired (PStr (encode_hex ''k2'')))
   \<and> map_sum id (\<lambda>r. (dataStore (fst r) (PStr (encode_hex ''k2'')), snd r))
         (threadedRepublishData E_ex d_sweep [(''k1'', 1000), (''k2'', 1000)])
       = Inr (None, [IterativeStore (PStr (encode_hex ''k1'')) (PStr ''v1'') PNone 0])"
  by (simp add: republish_action_def threadedRepublishData_def d_sweep_def d_ex_def E_ex_def
        encode_hex_def hex_digit_def getItem_def delItem_def)

section \<open>Properties of the store paths\<close>

lemma index_add_absent:
  assumes "opname \<notin> fst ` set ops"
  shows "index_add opname field (PDict ops) ds key val = Inr val"
  using assms by (simp add: index_add_def)

lemma index_remove_absent:
  assumes "opname \<notin> fst ` set ops"
  shows "index_remove opname field (PDict ops) ds key val = Inr (Some val)"
  using assms by (simp add: index_remove_def)

lemma index_add_present:
  assumes "map_of ops opname = Some item"
  shows "index_add opname field (PDict ops) ds key val =
     (if getItem ds key \<noteq> PNone then
        (case py_getitem (getItem ds key) field of Inl e \<Rightarrow> Inl e | Inr members \<Rightarrow>
         case py_in item members of Inl e \<Rightarrow> Inl e | Inr isin \<Rightarrow>
           if \<not> isin then
             (case py_append members item of Inl e \<Rightarrow> Inl e
              | Inr members' \<Rightarrow> Inr (dict_set (getItem ds key) field members'))
           else Inr (getItem ds key))
      else Inr (PDict [(field, PList [item])]))"
proof -
  have "opname \<in> fst ` set ops" using assms by (metis domI dom_map_of_conv_image_fst)
  then show ?thesis using assms by (simp add: index_add_def Let_def)
qed

lemma keyword_add_merge:
  assumes js: "json_loads E s = Some (PDict ops)"
    and op: "map_of ops ''keyword_index_add'' = Some item"
    and n1: "''notary_index_add'' \<notin> fst ` set ops"
    and n2: "''notary_index_remove'' \<notin> fst ` set ops"
    and n3: "''keyword_index_remove'' \<notin> fst ` set ops"
  shows "index_merge E ds key (PStr s) =
     (case index_add ''keyword_index_add'' ''listings'' (PDict ops) ds key (PStr s) of
        Inl e \<Rightarrow> Some (PStr s) | Inr v \<Rightarrow> Some v)"
  using js n1 n2 n3
  by (simp add: index_merge_def index_blocks_def index_add_absent index_remove_absent
        split: sum.splits)

text \<open>
  Claim C1, as amended.  The handler of an inbound store message, \<open>on_storeValue\<close>,
  applies no index merge: it binds the key to the payload as it was received, whatever
  its shape, when the payload is truthy, and leaves the store as it is otherwise.  The
  index merge is applied by \<open>storeKeyValue\<close>, the callback of \<open>iterativeStore\<close> on the node
  that publishes: for a value that is the JSON text of a \<^verbatim>\<open>keyword_index_add\<close> operation
  (and of no other index operation) it writes \<open>{listings: [item]}\<close> when the key has no
  value yet, and the existing index, with the item appended to its listings unless it is
  there already, when the key holds an index.
\<close>

theorem inbound_store_writes_payload_as_received:
  "(map_of msg ''key'' = Some key \<and> map_of msg ''value'' = Some val
      \<and> map_of msg ''originalPublisherID'' = Some pub \<and> map_of msg ''age'' = Some (PInt age)
    \<longrightarrow> on_storeValue d now msg =
          Inr (if truthy val
               then d\<lparr>dataStore := (dataStore d)(key \<mapsto>
                      \<lparr>e_value = val, e_lastPublished = now, e_originallyPublished = now - age,
                       e_originalPublisherID = pub, e_market_id = market_id d\<rparr>)\<rparr>
               else d))
   \<and> (json_loads E s = Some (PDict ops) \<and> map_of ops ''keyword_index_add'' = Some item
      \<and> ''notary_index_add'' \<notin> fst ` set ops \<and> ''notary_index_remove'' \<notin> fst ` set ops
      \<and> ''keyword_index_remove'' \<notin> fst ` set ops
    \<longrightarrow> (getItem (dataStore d) ikey = PNone \<longrightarrow>
           dataStore (fst (snd (storeKeyValue E d now nodes ikey (PStr s) publisher a))) ikey =
             Some \<lparr>e_value = PDict [(''listings'', PList [item])], e_lastPublished = now,
                   e_originallyPublished = now - a, e_originalPublisherID = publisher,
                   e_market_id = market_id d\<rparr>)
        \<and> (getItem (dataStore d) ikey = PDict idx \<and> map_of idx ''listings'' = Some (PList members)
           \<longrightarrow> dataStore (fst (snd (storeKeyValue E d now nodes ikey (PStr s) publisher a))) ikey =
             Some \<lparr>e_value = (if item \<in> set members then PDict idx
                               else dict_set (PDict idx) ''listings'' (PList (members @ [item]))),
                   e_lastPublished = now, e_originallyPublished = now - a,
                   e_originalPublisherID = publisher, e_market_id = market_id d\<rparr>))"
proof (intro conjI impI)
  assume "map_of msg ''key'' = Some key \<and> map_of msg ''value'' = Some val
      \<and> map_of msg ''originalPublisherID'' = Some pub \<and> map_of msg ''age'' = Some (PInt age)"
  then show "on_storeValue d now msg =
          Inr (if truthy val
               then d\<lparr>dataStore := (dataStore d)(key \<mapsto>
                      \<lparr>e_value = val, e_lastPublished = now, e_originallyPublished = now - age,
                       e_originalPublisherID = pub, e_market_id = market_id d\<rparr>)\<rparr>
               else d)"
    by (simp add: on_storeValue_def msg_get_def setItem_def)
next
  assume h: "json_loads E s = Some (PDict ops) \<and> map_of ops ''keyword_index_add'' = Some item
      \<and> ''notary_index_add'' \<notin> fst ` set ops \<and> ''notary_index_remove'' \<notin> fst ` set ops
      \<and> ''keyword_index_remove'' \<notin> fst ` set ops"
  assume none: "getItem (dataStore d) ikey = PNone"
  have "index_merge E (dataStore d) ikey (PStr s) = Some (PDict [(''listings'', PList [item])])"
    using h none by (simp add: keyword_add_merge index_add_present)
  then show "dataStore (fst (snd (storeKeyValue E d now nodes ikey (PStr s) publisher a))) ikey =
             Some \<lparr>e_value = PDict [(''listings'', PList [item])], e_lastPublished = now,
                   e_originallyPublished = now - a, e_originalPublisherID = publisher,
                   e_market_id = market_id d\<rparr>"
    by (simp add: storeKeyValue_def setItem_def Let_def split: sum.splits)
next
  assume h: "json_loads E s = Some (PDict ops) \<and> map_of ops ''keyword_index_add'' = Some item
      \<and> ''notary_index_add'' \<notin> fst ` set ops \<and> ''notary_index_remove'' \<notin> fst ` set ops
      \<and> ''keyword_index_remove'' \<notin> fst ` set ops"
  assume idx: "getItem (dataStore d) ikey = PDict idx \<and> map_of idx ''listings'' = Some (PList members)"
  have "index_merge E (dataStore d) ikey (PStr s) =
          Some (if item \<in> set members then PDict idx
                else dict_set (PDict idx) ''listings'' (PList (members @ [item])))"
    using h idx by (simp add: keyword_add_merge index_add_present)
  then show "dataStore (fst (snd (storeKeyValue E d now nodes ikey (PStr s) publisher a))) ikey =
             Some \<lparr>e_value = (if item \<in> set members then PDict idx
                               else dict_set (PDict idx) ''listings'' (PList (members @ [item]))),
                   e_lastPublished = now, e_originallyPublished = now - a,
                   e_originalPublisherID = publisher, e_market_id = market_id d\<rparr>"
    by (simp add: storeKeyValue_def setItem_def Let_def split: sum.splits)
qed

lemma d_L1_store:
  "getItem (dataStore d_L1) (PStr ''K'') = PDict [(''listings'', PList [PStr ''L1''])]"
  by (simp add: d_L1_def storeKeyValue_def index_merge_def index_blocks_def index_add_def
        index_remove_def E_ex_def json_ex_def d_ex_def getItem_def setItem_def)

theorem inbound_store_writes_payload_as_received_witness:
  "on_storeValue d_ex 1000 msg_L1 =
     Inr (d_ex\<lparr>dataStore := [PStr ''K'' \<mapsto>
            \<lparr>e_value = PDict [(''keyword_index_add'', PStr ''L1'')], e_lastPublished = 1000,
             e_originallyPublished = 1000, e_originalPublisherID = PStr ''writer1'',
             e_market_id = PInt 1\<rparr>]\<rparr>)
   \<and> dataStore (fst (snd (storeKeyValue E_ex d_L1 1001 (PList []) (PStr ''K'')
                  (PStr ''{\"keyword_index_add\": \"L2\"}'') (PStr ''me'') 0))) (PStr ''K'') =
       Some \<lparr>e_value = PDict [(''listings'', PList [PStr ''L1'', PStr ''L2''])],
             e_lastPublished = 1001, e_originallyPublished = 1001,
             e_originalPublisherID = PStr ''me'', e_market_id = PInt 1\<rparr>"
proof -
  have m: "market_id d_L1 = PInt 1"
    by (simp add: d_L1_def storeKeyValue_def d_ex_def split: option.splits)
  show ?thesis
    using inbound_store_writes_payload_as_received
      [where msg = msg_L1 and key = "PStr ''K''"
         and val = "PDict [(''keyword_index_add'', PStr ''L1'')]" and pub = "PStr ''writer1''"
         and age = 0 and d = d_ex and now = 1000 and E = E_ex and s = "[]" and ops = "[]"]
      inbound_store_writes_payload_as_received
      [where msg = "[]" and E = E_ex and s = "''{\"keyword_index_add\": \"L2\"}''"
         and ops = "[(''keyword_index_add'', PStr ''L2'')]" and item = "PStr ''L2''"
         and d = d_L1 and ikey = "PStr ''K''" and now = 1001 and nodes = "PList []"
         and publisher = "PStr ''me''" and a = 0
         and idx = "[(''listings'', PList [PStr ''L1''])]" and members = "[PStr ''L1'']"]
      d_L1_store m
    by (simp add: msg_L1_def E_ex_def json_ex_def d_ex_def)
qed

text \<open>
  Claim C1 as it is stated: two writers send store messages with
  \<^verbatim>\<open>keyword_index_add\<close> L1 and L2 for the key \<open>K\<close> to the node.  After both messages the
  store holds at \<open>K\<close> the raw payload of the second message; the listing L1 is gone and
  there is no index \<open>{listings: [L1, L2]}\<close>.
\<close>

theorem inbound_store_overwrites_counterexample:
  "map_sum id (\<lambda>d1. map_sum id (\<lambda>d2. getItem (dataStore d2) (PStr ''K''))
                       (on_storeValue d1 1001 msg_L2))
     (on_storeValue d_ex 1000 msg_L1)
   = Inr (Inr (PDict [(''keyword_index_add'', PStr ''L2'')]))"
  by (simp add: on_storeValue_def msg_get_def msg_L1_def msg_L2_def setItem_def getItem_def)

section \<open>Properties of answering findNode\<close>

lemma on_find_node_absent:
  assumes "f \<in> set [''senderGUID'', ''key'', ''findID'', ''uri'', ''pubkey'']"
    and "map_of msg f = None"
  shows "on_find_node E d msg = (Some KeyError, d, [])"
proof -
  have f: "f = ''senderGUID'' \<or> f = ''key'' \<or> f = ''findID'' \<or> f = ''uri'' \<or> f = ''pubkey''"
    using assms(1) by simp
  show ?thesis
    unfolding on_find_node_def msg_get_def
    using f assms(2)
    by (cases "map_of msg ''senderGUID''"; cases "map_of msg ''key''";
        cases "map_of msg ''findID''"; cases "map_of msg ''uri''";
        cases "map_of msg ''pubkey''"; simp; fastforce)
qed

lemma on_find_node_present:
  assumes "map_of msg ''senderGUID'' = Some guid" and "map_of msg ''key'' = Some key"
    and "map_of msg ''findID'' = Some findID" and "map_of msg ''uri'' = Some uri"
    and "map_of msg ''pubkey'' = Some pubkey"
  shows "on_find_node E d msg =
     (if guid = PNone \<or> guid = transport_guid d \<or> key = PNone \<or> findID = PNone
         \<or> uri = PNone \<or> pubkey = PNone
      then (Some AssertionError, d, [])
      else
        (case getContact (routingTable d) guid of
           None \<Rightarrow> (None, d, [])
         | Some new_peer \<Rightarrow>
             (case map_of msg ''findValue'' of
                None \<Rightarrow> (Some KeyError, d, [])
              | Some findValue \<Rightarrow>
                  (None,
                   if c_address new_peer \<noteq> uri then
                     d\<lparr>routingTable :=
                         addContact (removeContact (routingTable d) (c_guid new_peer))
                           (new_peer\<lparr>c_address := uri\<rparr>)\<rparr>
                   else d,
                   [Send (c_guid new_peer) (find_node_reply E d findValue key guid findID)]))))"
  using assms
  by (simp add: on_find_node_def msg_get_def Let_def split: option.splits)

text \<open>
  Claim C5, as amended.  For every inbound findNode message in which one of the fields
  senderGUID, key, findID, uri and pubkey is absent or None, or whose sender guid equals
  the local guid, \<open>on_find_node\<close> raises: KeyError for an absent field, AssertionError
  otherwise.  The exception leaves the method and reaches the caller; no reply is sent
  and the state of the node is as before.
\<close>

theorem on_find_node_precondition_failure:
  assumes "(\<exists>f. f \<in> set [''senderGUID'', ''key'', ''findID'', ''uri'', ''pubkey'']
                \<and> (map_of msg f = None \<or> map_of msg f = Some PNone))
            \<or> map_of msg ''senderGUID'' = Some (transport_guid d)"
  shows "(on_find_node E d msg = (Some KeyError, d, [])
            \<or> on_find_node E d msg = (Some AssertionError, d, []))
         \<and> (on_find_node E d msg = (Some KeyError, d, []) \<longleftrightarrow>
              (\<exists>f. f \<in> set [''senderGUID'', ''key'', ''findID'', ''uri'', ''pubkey'']
                   \<and> map_of msg f = None))"
proof (cases "\<exists>f. f \<in> set [''senderGUID'', ''key'', ''findID'', ''uri'', ''pubkey'']
                   \<and> map_of msg f = None")
  case True
  then obtain f where "f \<in> set [''senderGUID'', ''key'', ''findID'', ''uri'', ''pubkey'']"
    and "map_of msg f = None" by blast
  then have "on_find_node E d msg = (Some KeyError, d, [])" by (rule on_find_node_absent)
  then show ?thesis using True by simp
next
  case False
  then obtain guid key findID uri pubkey where
    p: "map_of msg ''senderGUID'' = Some guid" "map_of msg ''key'' = Some key"
       "map_of msg ''findID'' = Some findID" "map_of msg ''uri'' = Some uri"
       "map_of msg ''pubkey'' = Some pubkey"
    by fastforce
  have "guid = PNone \<or> guid = transport_guid d \<or> key = PNone \<or> findID = PNone
         \<or> uri = PNone \<or> pubkey = PNone"
    using assms p by fastforce
  then have "on_find_node E d msg = (Some AssertionError, d, [])"
    using on_find_node_present [OF p, of E d] by simp
  then show ?thesis using False by simp
qed

theorem on_find_node_precondition_failure_witness:
  "on_find_node E_ex d_rt msg_find_self = (Some AssertionError, d_rt, [])
   \<and> on_find_node E_ex d_rt [(''senderGUID'', PStr ''a'')] = (Some KeyError, d_rt, [])"
proof -
  have a: "map_of msg_find_self ''senderGUID'' = Some (transport_guid d_rt)"
    by (simp add: msg_find_self_def d_rt_def d_ex_def)
  have b: "\<not> (\<exists>f. f \<in> set [''senderGUID'', ''key'', ''findID'', ''uri'', ''pubkey'']
                \<and> map_of msg_find_self f = None)"
    by (auto simp: msg_find_self_def)
  have c: "\<exists>f. f \<in> set [''senderGUID'', ''key'', ''findID'', ''uri'', ''pubkey'']
             \<and> map_of [(''senderGUID'', PStr ''a'')] f = None"
    by (rule exI [of _ "''key''"]) simp
  have c': "(\<exists>f. f \<in> set [''senderGUID'', ''key'', ''findID'', ''uri'', ''pubkey'']
               \<and> (map_of [(''senderGUID'', PStr ''a'')] f = None
                    \<or> map_of [(''senderGUID'', PStr ''a'')] f = Some PNone))
            \<or> map_of [(''senderGUID'', PStr ''a'')] ''senderGUID'' = Some (transport_guid d_rt)"
    using c by blast
  note t1 = on_find_node_precondition_failure [of msg_find_self d_rt E_ex, OF disjI2 [OF a]]
  note t2 = on_find_node_precondition_failure [of "[(''senderGUID'', PStr ''a'')]" d_rt E_ex, OF c']
  have "on_find_node E_ex d_rt msg_find_self = (Some AssertionError, d_rt, [])"
    using t1 b by blast
  moreover have "on_find_node E_ex d_rt [(''senderGUID'', PStr ''a'')] = (Some KeyError, d_rt, [])"
    using t2 c by blast
  ultimately show ?thesis by simp
qed

text \<open>
  Claim C5 as it is stated asks that no exception propagates to the caller.  On a
  message whose sender guid is the local guid the assertion of \<open>on_find_node\<close> fails and
  the AssertionError leaves the method.
\<close>

theorem on_find_node_self_counterexample:
  "fst (on_find_node E_ex d_rt msg_find_self) = Some AssertionError"
  by (simp add: on_find_node_def msg_get_def msg_find_self_def d_rt_def d_ex_def)












section \<open>What the methods leave untouched\<close>

lemma store_nodes_cases:
  "store_nodes d m (node # nodes) =
     (case py_index node 0 of Inl e \<Rightarrow> (Some e, []) | Inr ip \<Rightarrow>
      case py_index node 1 of Inl e \<Rightarrow> (Some e, []) | Inr port \<Rightarrow>
      case py_index node 2 of Inl e \<Rightarrow> (Some e, []) | Inr guid \<Rightarrow>
        if guid = transport_guid d then (None, [])
        else
          (fst (store_nodes d m nodes),
           (case getContact (routingTable d) guid of
              None \<Rightarrow> [GetCryptoPeerTcp guid ip port, StartHandshake guid, Send guid m]
            | Some peer \<Rightarrow> [Send guid m]) @ snd (store_nodes d m nodes)))"
  by (simp add: Let_def split: sum.splits)

lemma storeKeyValue_state:
  "fst (snd (storeKeyValue E d now nodes key val pub age)) =
     (case index_merge E (dataStore d) key val of
        None \<Rightarrow> d
      | Some v \<Rightarrow> d\<lparr>dataStore := setItem (dataStore d) key v now (now - age) pub (market_id d)\<rparr>)"
  by (simp add: storeKeyValue_def Let_def split: option.splits sum.splits)

lemma storeKeyValue_searches:
  "searches (fst (snd (storeKeyValue E d now nodes key val pub age))) = searches d"
  by (simp add: storeKeyValue_state split: option.splits)

lemma invoke_callback_searches:
  "searches (fst (snd (invoke_callback E d now cb arg))) = searches d"
  by (cases cb) (simp_all add: storeKeyValue_searches)

lemma store_nodes_no_probe: "probes (snd (store_nodes d m nodes)) = 0 \<or> map_of m ''type'' = Some (PStr ''findNode'')"
proof (induction nodes)
  case Nil
  show ?case by (simp add: probes_def)
next
  case (Cons node nodes)
  then show ?case
    by (auto simp: store_nodes_cases probes_def simp del: store_nodes.simps
             split: sum.splits option.splits)
qed

lemma probe_node_fields:
  assumes "probe_node d fv s node = Inr (s', effs)"
  shows "s_findID s' = s_findID s \<and> s_callback s' = s_callback s \<and> s_key s' = s_key s
         \<and> s_call s' = s_call s \<and> s_shortlist s' = s_shortlist s
         \<and> s_contactedNow s' = s_contactedNow s + probes effs \<and> probes effs \<le> 1
         \<and> length effs = probes effs"
  using assms
  by (auto simp: probe_node_def Let_def probes_def findNode_msg_def
           split: if_splits option.splits)

lemma probe_loop_fields:
  assumes "probe_loop E d fv s nodes = (err, s', effs)"
  shows "s_findID s' = s_findID s \<and> s_callback s' = s_callback s \<and> s_key s' = s_key s
         \<and> s_call s' = s_call s \<and> s_shortlist s' = s_shortlist s
         \<and> s_contactedNow s' = s_contactedNow s + probes effs
         \<and> length effs = probes effs
         \<and> (s_contactedNow s < alpha E \<longrightarrow> s_contactedNow s' \<le> alpha E)"
  using assms
proof (induction nodes arbitrary: s err s' effs)
  case Nil
  then show ?case by (simp add: probes_def)
next
  case (Cons node nodes)
  show ?case
  proof (cases "probe_node d fv s node")
    case (Inl e)
    then show ?thesis using Cons.prems by (simp add: probes_def)
  next
    case (Inr r)
    obtain s1 effs1 where r: "r = (s1, effs1)" by (cases r)
    note pn = probe_node_fields [OF Inr [unfolded r]]
    show ?thesis
    proof (cases "s_contactedNow s1 = alpha E")
      case True
      then have "s' = s1" "effs = effs1" using Cons.prems Inr r by simp_all
      then show ?thesis using pn True by simp
    next
      case False
      obtain err2 s2 effs2 where l: "probe_loop E d fv s1 nodes = (err2, s2, effs2)"
        by (cases "probe_loop E d fv s1 nodes") auto
      then have e: "s' = s2" "effs = effs1 @ effs2" using Cons.prems Inr r False by simp_all
      note ih = Cons.IH [OF l]
      have lt: "s_contactedNow s < alpha E \<longrightarrow> s_contactedNow s1 < alpha E"
        using pn False by linarith
      have bound: "s_contactedNow s < alpha E \<longrightarrow> s_contactedNow s' \<le> alpha E"
        using lt ih e(1) by blast
      have sum: "probes effs = probes effs1 + probes effs2"
        using e(2) by (simp add: probes_def)
      show ?thesis using ih pn e bound sum by simp
    qed
  qed
qed
lemma searchIteration_fields:
  assumes "searchIteration E d s fv = (err, d', s', effs)"
  shows "s_findID s' = s_findID s \<and> s_callback s' = s_callback s \<and> s_key s' = s_key s
         \<and> s_call s' = s_call s
         \<and> searches d' = searches d \<and> dataStore d' = dataStore d
         \<and> routingTable d' = routingTable d
         \<and> s_contactedNow s' = s_contactedNow s + probes effs
         \<and> length effs = probes effs
         \<and> (s_contactedNow s < alpha E \<longrightarrow> s_contactedNow s' \<le> alpha E)"
proof -
  define s1 where "s1 = s\<lparr>s_slowNodeCount := length (s_active_probes s)\<rparr>"
  define d1 where "d1 = d\<lparr>activePeers :=
                   sort_key (\<lambda>p. distance E (c_guid p) (s_key s)) (activePeers d)\<rparr>"
  define s2 where "s2 = (case activePeers d1 of
                  [] \<Rightarrow> s1
                | closestPeer # _ \<Rightarrow>
                    s1\<lparr>s_previous_closest_node :=
                         PTuple [urlparse_hostname E (c_address closestPeer),
                                 urlparse_port E (c_address closestPeer),
                                 c_guid closestPeer]\<rparr>)"
  define deduped where "deduped = dedupe (s_shortlist s2)"
  define s3 where "s3 = (if length (s_shortlist s2) > 1 then
                        s2\<lparr>s_shortlist :=
                              sort_key (\<lambda>node. distance E (node ! 2) (s_key s)) deduped,
                            s_prevShortlistLength := length deduped\<rparr>
                      else s2)"
  have f2: "s_findID s2 = s_findID s \<and> s_callback s2 = s_callback s \<and> s_key s2 = s_key s
            \<and> s_call s2 = s_call s \<and> s_contactedNow s2 = s_contactedNow s"
    by (simp add: s2_def s1_def split: list.splits)
  have f3: "s_findID s3 = s_findID s \<and> s_callback s3 = s_callback s \<and> s_key s3 = s_key s
            \<and> s_call s3 = s_call s \<and> s_contactedNow s3 = s_contactedNow s"
    using f2 by (simp add: s3_def)
  have fd: "searches d1 = searches d \<and> dataStore d1 = dataStore d
            \<and> routingTable d1 = routingTable d"
    by (simp add: d1_def)
  have eq: "searchIteration E d s fv =
     (if length (s_shortlist s2) > 1 \<and> length deduped > 1
            \<and> list_ex (\<lambda>node. length node \<le> 2) deduped
      then (Some IndexError, d1, s2\<lparr>s_shortlist := deduped\<rparr>, [])
      else if \<not> activeSearchExists d1 (s_findID s3) then (None, d1, s3, [])
      else (case probe_loop E d1 fv s3 (s_shortlist s3) of
              (err, s4, effs) \<Rightarrow> (err, d1, s4, effs)))"
    unfolding searchIteration_def s1_def [symmetric] d1_def [symmetric] Let_def
      s2_def [symmetric] deduped_def [symmetric] s3_def [symmetric]
    by simp
  consider (a) "length (s_shortlist s2) > 1 \<and> length deduped > 1
            \<and> list_ex (\<lambda>node. length node \<le> 2) deduped"
    | (b) "\<not> (length (s_shortlist s2) > 1 \<and> length deduped > 1
            \<and> list_ex (\<lambda>node. length node \<le> 2) deduped)"
          "\<not> activeSearchExists d1 (s_findID s3)"
    | (c) "\<not> (length (s_shortlist s2) > 1 \<and> length deduped > 1
            \<and> list_ex (\<lambda>node. length node \<le> 2) deduped)"
          "activeSearchExists d1 (s_findID s3)"
    by blast
  then show ?thesis
  proof cases
    case a
    have "searchIteration E d s fv = (Some IndexError, d1, s2\<lparr>s_shortlist := deduped\<rparr>, [])"
      by (subst eq, subst if_P [OF a], rule refl)
    then have "d' = d1" "s' = s2\<lparr>s_shortlist := deduped\<rparr>" "effs = []"
      using assms by simp_all
    then show ?thesis using f2 fd by (simp add: probes_def)
  next
    case b
    have "searchIteration E d s fv = (None, d1, s3, [])"
      by (subst eq, subst if_not_P [OF b(1)], subst if_P [OF b(2)], rule refl)
    then have "d' = d1" "s' = s3" "effs = []" using assms by simp_all
    then show ?thesis using f3 fd by (simp add: probes_def)
  next
    case c
    obtain e4 s4 effs4 where l: "probe_loop E d1 fv s3 (s_shortlist s3) = (e4, s4, effs4)"
      by (cases "probe_loop E d1 fv s3 (s_shortlist s3)") auto
    have nn: "\<not> \<not> activeSearchExists d1 (s_findID s3)" using c(2) by simp
    have "searchIteration E d s fv = (e4, d1, s4, effs4)"
      by (subst eq, subst if_not_P [OF c(1)], subst if_not_P [OF nn], simp add: l)
    then have r: "d' = d1" "s' = s4" "effs = effs4" using assms by simp_all
    note pl = probe_loop_fields [OF l]
    have bound: "s_contactedNow s < alpha E \<longrightarrow> s_contactedNow s' \<le> alpha E"
      using pl f3 r by auto
    show ?thesis using pl f3 fd r bound by simp
  qed
qed

lemma searchIteration_at_fields:
  assumes "searchIteration_at E d i fv = (err, d', effs)" and "i < length (searches d)"
  shows "map s_findID (searches d') = map s_findID (searches d)
         \<and> map s_callback (searches d') = map s_callback (searches d)
         \<and> length (searches d') = length (searches d)
         \<and> (\<forall>j. j \<noteq> i \<longrightarrow> searches d' ! j = searches d ! j)
         \<and> dataStore d' = dataStore d \<and> routingTable d' = routingTable d
         \<and> s_contactedNow (searches d' ! i) = s_contactedNow (searches d ! i) + probes effs
         \<and> length effs = probes effs
         \<and> (s_contactedNow (searches d ! i) < alpha E
              \<longrightarrow> s_contactedNow (searches d' ! i) \<le> alpha E)"
proof -
  obtain e1 d1 s1 effs1 where
    si: "searchIteration E d (searches d ! i) fv = (e1, d1, s1, effs1)"
    by (cases "searchIteration E d (searches d ! i) fv") auto
  then have r: "d' = d1\<lparr>searches := (searches d1)[i := s1]\<rparr>" "effs = effs1"
    using assms(1) by (simp_all add: searchIteration_at_def)
  note f = searchIteration_fields [OF si]
  have sd: "searches d' = (searches d)[i := s1]" using r f by simp
  have "map s_findID ((searches d)[i := s1]) = map s_findID (searches d)"
    using f assms(2) by (simp add: map_update list_update_same_conv)
  moreover have "map s_callback ((searches d)[i := s1]) = map s_callback (searches d)"
    using f assms(2) by (simp add: map_update list_update_same_conv)
  moreover have "s_contactedNow (searches d ! i) < alpha E
              \<longrightarrow> s_contactedNow (searches d' ! i) \<le> alpha E"
    using f sd assms(2) by auto
  moreover have "s_contactedNow (searches d' ! i) = s_contactedNow (searches d ! i) + probes effs"
    using f sd r assms(2) by simp
  moreover have "\<forall>j. j \<noteq> i \<longrightarrow> searches d' ! j = searches d ! j"
    using sd by simp
  moreover have "dataStore d' = dataStore d \<and> routingTable d' = routingTable d
                 \<and> length (searches d') = length (searches d) \<and> length effs = probes effs"
    using f r sd by simp
  ultimately show ?thesis using sd by simp
qed

lemma add_to_shortlist_fields:
  "s_findID (add_to_shortlist s xs) = s_findID s \<and> s_callback (add_to_shortlist s xs) = s_callback s
   \<and> s_key (add_to_shortlist s xs) = s_key s \<and> s_call (add_to_shortlist s xs) = s_call s
   \<and> s_contactedNow (add_to_shortlist s xs) = s_contactedNow s
   \<and> s_already_contacted (add_to_shortlist s xs) = s_already_contacted s
   \<and> s_active_probes (add_to_shortlist s xs) = s_active_probes s"
  by (induction s xs rule: add_to_shortlist.induct) auto

lemma map_update_same:
  assumes "i < length xs" and "f y = f (xs ! i)"
  shows "map f (xs[i := y]) = map f xs"
  using assms by (simp add: map_update list_update_same_conv)

lemma find_from_routing_table_searches:
  assumes "i < length (searches d1)"
  shows "map s_findID (searches (fst (snd (find_from_routing_table E d1 now i key fv cb))))
           = map s_findID (searches d1)
         \<and> map s_callback (searches (fst (snd (find_from_routing_table E d1 now i key fv cb))))
           = map s_callback (searches d1)"
proof -
  define shortlist where "shortlist = map (\<lambda>closeNode. [c_ip closeNode, c_port closeNode, c_guid closeNode])
       (findCloseNodes E (routingTable d1) key (alpha E) (settings_guid d1))"
  define s1 where "s1 = (if length shortlist > 0 then add_to_shortlist (searches d1 ! i) shortlist
                else searches d1 ! i)"
  define d2 where "d2 = d1\<lparr>searches := (searches d1)[i := s1]\<rparr>"
  define touch where "touch = (if key \<noteq> settings_guid d1 then [TouchKBucket key] else [])"
  have eq: "find_from_routing_table E d1 now i key fv cb =
      (if length (s_shortlist s1) = 0 then
           (if cb \<noteq> CbNone then
              (case invoke_callback E d2 now cb (PList []) of
                 (Some e, d3, effs) \<Rightarrow> (Some e, d3, ReturnNone, touch @ effs)
               | (None, d3, effs) \<Rightarrow>
                   (case searchIteration_at E d3 i fv of
                      (err, d4, effs') \<Rightarrow> (err, d4, ReturnNone, touch @ effs @ effs')))
            else (None, d2, EmptyList, touch))
         else
           (case searchIteration_at E d2 i fv of
              (err, d3, effs) \<Rightarrow> (err, d3, ReturnNone, touch @ effs)))"
    unfolding find_from_routing_table_def shortlist_def [symmetric] Let_def s1_def [symmetric]
      d2_def [symmetric] touch_def [symmetric]
    by simp
  have s1: "s_findID s1 = s_findID (searches d1 ! i) \<and> s_callback s1 = s_callback (searches d1 ! i)"
    by (simp add: s1_def add_to_shortlist_fields)
  have d2: "map s_findID (searches d2) = map s_findID (searches d1)
            \<and> map s_callback (searches d2) = map s_callback (searches d1)
            \<and> length (searches d2) = length (searches d1)"
    using s1 assms by (simp add: d2_def map_update_same)
  obtain e3 d3 effs3 where ic: "invoke_callback E d2 now cb (PList []) = (e3, d3, effs3)"
    by (cases "invoke_callback E d2 now cb (PList [])") auto
  have d3: "searches d3 = searches d2"
    using invoke_callback_searches [of E d2 now cb "PList []"] ic by simp
  obtain e4 d4 effs4 where s4: "searchIteration_at E d3 i fv = (e4, d4, effs4)"
    by (cases "searchIteration_at E d3 i fv") auto
  have d4: "map s_findID (searches d4) = map s_findID (searches d3)
            \<and> map s_callback (searches d4) = map s_callback (searches d3)"
    using searchIteration_at_fields [OF s4] d3 d2 assms by simp
  obtain e5 d5 effs5 where s5: "searchIteration_at E d2 i fv = (e5, d5, effs5)"
    by (cases "searchIteration_at E d2 i fv") auto
  have d5: "map s_findID (searches d5) = map s_findID (searches d2)
            \<and> map s_callback (searches d5) = map s_callback (searches d2)"
    using searchIteration_at_fields [OF s5] d2 assms by simp
  have "fst (snd (find_from_routing_table E d1 now i key fv cb)) \<in> {d2, d3, d4, d5}"
    unfolding eq using ic s4 s5 by (cases e3) auto
  then show ?thesis using d2 d3 d4 d5 by auto
qed

lemma find_from_startup_searches:
  assumes "i < length (searches d1)"
  shows "map s_findID (searches (fst (snd (find_from_startup E d1 i sl fv))))
           = map s_findID (searches d1)
         \<and> map s_callback (searches (fst (snd (find_from_startup E d1 i sl fv))))
           = map s_callback (searches d1)"
proof -
  define d2 where "d2 = d1\<lparr>searches := (searches d1)[i := (searches d1 ! i)\<lparr>s_shortlist := sl\<rparr>]\<rparr>"
  have d2: "map s_findID (searches d2) = map s_findID (searches d1)
            \<and> map s_callback (searches d2) = map s_callback (searches d1)
            \<and> length (searches d2) = length (searches d1)"
    using assms by (simp add: d2_def map_update_same)
  obtain e5 d5 effs5 where s5: "searchIteration_at E d2 i fv = (e5, d5, effs5)"
    by (cases "searchIteration_at E d2 i fv") auto
  have d5: "map s_findID (searches d5) = map s_findID (searches d2)
            \<and> map s_callback (searches d5) = map s_callback (searches d2)"
    using searchIteration_at_fields [OF s5] d2 assms by simp
  have "fst (snd (find_from_startup E d1 i sl fv)) = d5"
    unfolding find_from_startup_def d2_def [symmetric] Let_def using s5 by simp
  then show ?thesis using d2 d5 by simp
qed

lemma iterativeFind_searches:
  "map s_findID (searches (fst (snd (iterativeFind E d now findID key startup call cb))))
     = map s_findID (searches d) @ [findID]
   \<and> map s_callback (searches (fst (snd (iterativeFind E d now findID key startup call cb))))
     = map s_callback (searches d) @ [cb]"
proof -
  define d1 where "d1 = d\<lparr>searches := searches d @ [new_DHTSearch key call cb findID]\<rparr>"
  define i where "i = length (searches d)"
  have i: "i < length (searches d1)" by (simp add: d1_def i_def)
  have d1: "map s_findID (searches d1) = map s_findID (searches d) @ [findID]
            \<and> map s_callback (searches d1) = map s_callback (searches d) @ [cb]"
    by (simp add: d1_def new_DHTSearch_def)
  note a = find_from_routing_table_searches [OF i, of E now key "call \<noteq> PStr ''findNode''" cb]
  note b = find_from_startup_searches [OF i, of E _ "call \<noteq> PStr ''findNode''"]
  have "fst (snd (iterativeFind E d now findID key startup call cb)) = d1
        \<or> fst (snd (iterativeFind E d now findID key startup call cb))
            = fst (snd (find_from_routing_table E d1 now i key (call \<noteq> PStr ''findNode'') cb))
        \<or> (\<exists>sl. fst (snd (iterativeFind E d now findID key startup call cb))
            = fst (snd (find_from_startup E d1 i sl (call \<noteq> PStr ''findNode''))))"
    unfolding iterativeFind_def d1_def [symmetric] i_def [symmetric] Let_def
    by (auto split: option.splits)
  then show ?thesis using a b d1 by auto
qed

section \<open>Properties of iterativeStore\<close>

lemma store_nodes_all:
  assumes "\<forall>n \<in> set ns. 3 \<le> length n \<and> n ! 2 \<noteq> transport_guid d"
  shows "store_nodes d m (map PTuple ns) = (None, concat (map (store_to_node d m) ns))"
  using assms
proof (induction ns)
  case Nil
  show ?case by simp
next
  case (Cons n ns)
  have l: "0 < length n" "1 < length n" "2 < length n" using Cons.prems by auto
  have g: "n ! 2 \<noteq> transport_guid d" using Cons.prems by simp
  have ih: "store_nodes d m (map PTuple ns) = (None, concat (map (store_to_node d m) ns))"
    using Cons by simp
  have hd: "store_to_node d m n =
      (case getContact (routingTable d) (n ! 2) of
        None \<Rightarrow> [GetCryptoPeerTcp (n ! 2) (n ! 0) (n ! 1), StartHandshake (n ! 2),
                  Send (n ! 2) m]
      | Some peer \<Rightarrow> [Send (n ! 2) m])"
    by (simp add: store_to_node_def)
  show ?case
    using l g ih
    by (simp add: store_nodes_cases hd del: store_nodes.simps split: option.splits)
qed

lemma index_merge_opaque:
  assumes "\<forall>s. val = PStr s \<longrightarrow> json_loads E s = None"
  shows "index_merge E ds key val = Some val"
  using assms by (cases val) (simp_all add: index_merge_def)

text \<open>
  Claim C4, as amended.  \<open>iterativeStore\<close>, given a truthy value, starts a node lookup
  whose callback is \<open>storeKeyValue\<close> bound to the key, the value, the age and the original
  publisher, which is the local guid when none is given.  When that callback runs with
  the list of nodes the lookup returns, it first applies the index merge.  For a value
  that is no JSON text the merge leaves the value as it is; a removal from an index that
  does not exist or does not hold the item ends the method with nothing written and
  nothing sent.  Otherwise the callback writes the (merged) value to the local store
  with last-published time \<open>now\<close>, originally-published time \<open>now - age\<close> and the
  publisher, whatever the node list is; and only then, when the list consists of tuples
  of at least three components none of which names the local node, it sends
  \<open>store{key, value, originalPublisherID, age}\<close> to every node of the list in order,
  after a crypto peer and a handshake for a node that is no contact of the routing
  table.
\<close>

theorem iterativeStore_writes_then_sends:
  "(truthy val \<longrightarrow>
      map s_callback (searches (fst (snd (iterativeStore E d now findID key val pub age))))
        = map s_callback (searches d)
            @ [CbStoreKeyValue key val (if pub = PNone then transport_guid d else pub) age])
   \<and> (index_merge E (dataStore d) key val = None \<longrightarrow>
        invoke_callback E d now (CbStoreKeyValue key val publisher age) nodes = (None, d, []))
   \<and> (\<forall>v. index_merge E (dataStore d) key val = Some v \<longrightarrow>
        fst (snd (invoke_callback E d now (CbStoreKeyValue key val publisher age) nodes))
          = d\<lparr>dataStore := (dataStore d)(key \<mapsto>
               \<lparr>e_value = v, e_lastPublished = now, e_originallyPublished = now - age,
                e_originalPublisherID = publisher, e_market_id = market_id d\<rparr>)\<rparr>
        \<and> (nodes = PList (map PTuple ns)
             \<and> (\<forall>n \<in> set ns. 3 \<le> length n \<and> n ! 2 \<noteq> transport_guid d) \<longrightarrow>
            fst (invoke_callback E d now (CbStoreKeyValue key val publisher age) nodes) = None
            \<and> snd (snd (invoke_callback E d now (CbStoreKeyValue key val publisher age) nodes))
                = concat (map (store_to_node d (proto_store key v publisher age)) ns)))
   \<and> ((\<forall>s. val = PStr s \<longrightarrow> json_loads E s = None) \<longrightarrow>
        index_merge E (dataStore d) key val = Some val)"
proof -
  have 1: "truthy val \<longrightarrow>
      map s_callback (searches (fst (snd (iterativeStore E d now findID key val pub age))))
        = map s_callback (searches d)
            @ [CbStoreKeyValue key val (if pub = PNone then transport_guid d else pub) age]"
  proof
    assume t: "truthy val"
    let ?cb = "CbStoreKeyValue key val (if pub = PNone then transport_guid d else pub) age"
    obtain e1 d1 r1 effs1 where
      f: "iterativeFind E d now findID key None (PStr ''findNode'') ?cb = (e1, d1, r1, effs1)"
      by (cases "iterativeFind E d now findID key None (PStr ''findNode'') ?cb") auto
    have "fst (snd (iterativeStore E d now findID key val pub age)) = d1"
      using t f by (simp add: iterativeStore_def iterativeFindNode_def iterativeStore_callback_def)
    then show "map s_callback (searches (fst (snd (iterativeStore E d now findID key val pub age))))
        = map s_callback (searches d) @ [?cb]"
      using iterativeFind_searches [of E d now findID key None "PStr ''findNode''" ?cb] f
      by simp
  qed
  have 2: "index_merge E (dataStore d) key val = None \<longrightarrow>
        invoke_callback E d now (CbStoreKeyValue key val publisher age) nodes = (None, d, [])"
    by (simp add: storeKeyValue_def)
  have 3: "\<forall>v. index_merge E (dataStore d) key val = Some v \<longrightarrow>
        fst (snd (invoke_callback E d now (CbStoreKeyValue key val publisher age) nodes))
          = d\<lparr>dataStore := (dataStore d)(key \<mapsto>
               \<lparr>e_value = v, e_lastPublished = now, e_originallyPublished = now - age,
                e_originalPublisherID = publisher, e_market_id = market_id d\<rparr>)\<rparr>
        \<and> (nodes = PList (map PTuple ns)
             \<and> (\<forall>n \<in> set ns. 3 \<le> length n \<and> n ! 2 \<noteq> transport_guid d) \<longrightarrow>
            fst (invoke_callback E d now (CbStoreKeyValue key val publisher age) nodes) = None
            \<and> snd (snd (invoke_callback E d now (CbStoreKeyValue key val publisher age) nodes))
                = concat (map (store_to_node d (proto_store key v publisher age)) ns))"
  proof (intro allI impI conjI)
    fix v
    assume m: "index_merge E (dataStore d) key val = Some v"
    let ?d' = "d\<lparr>dataStore := (dataStore d)(key \<mapsto>
               \<lparr>e_value = v, e_lastPublished = now, e_originallyPublished = now - age,
                e_originalPublisherID = publisher, e_market_id = market_id d\<rparr>)\<rparr>"
    show "fst (snd (invoke_callback E d now (CbStoreKeyValue key val publisher age) nodes)) = ?d'"
      using m by (simp add: storeKeyValue_state setItem_def)
    assume n: "nodes = PList (map PTuple ns)
             \<and> (\<forall>n \<in> set ns. 3 \<le> length n \<and> n ! 2 \<noteq> transport_guid d)"
    have t: "\<forall>n \<in> set ns. 3 \<le> length n \<and> n ! 2 \<noteq> transport_guid ?d'" using n by simp
    have sn: "store_nodes ?d' (proto_store key v publisher age) (map PTuple ns)
            = (None, concat (map (store_to_node ?d' (proto_store key v publisher age)) ns))"
      by (rule store_nodes_all [OF t])
    have st: "store_to_node ?d' (proto_store key v publisher age)
            = store_to_node d (proto_store key v publisher age)"
      by (rule ext) (simp add: store_to_node_def)
    have "storeKeyValue E d now nodes key val publisher age
            = (None, ?d', concat (map (store_to_node d (proto_store key v publisher age)) ns))"
      using m n sn st by (simp add: storeKeyValue_def setItem_def Let_def)
    then show "fst (invoke_callback E d now (CbStoreKeyValue key val publisher age) nodes) = None"
      and "snd (snd (invoke_callback E d now (CbStoreKeyValue key val publisher age) nodes))
                = concat (map (store_to_node d (proto_store key v publisher age)) ns)"
      by simp_all
  qed
  have 4: "(\<forall>s. val = PStr s \<longrightarrow> json_loads E s = None) \<longrightarrow>
        index_merge E (dataStore d) key val = Some val"
    using index_merge_opaque by blast
  show ?thesis using 1 2 3 4 by blast
qed
theorem iterativeStore_writes_then_sends_witness:
  "map s_callback (searches (fst (snd
       (iterativeStore E_ex d_rt 1000 (PStr ''f1'') (PStr ''K'') (PStr ''hello'') PNone 0))))
     = [CbStoreKeyValue (PStr ''K'') (PStr ''hello'') (PStr ''me'') 0]
   \<and> fst (snd (invoke_callback E_ex d_rt 1000
                 (CbStoreKeyValue (PStr ''K'') (PStr ''hello'') (PStr ''me'') 0)
                 (PList [PTuple [PStr ''hostA'', PInt 12345, PStr ''a''],
                         PTuple [PStr ''hostX'', PInt 12345, PStr ''xxxx'']])))
     = d_rt\<lparr>dataStore := [PStr ''K'' \<mapsto>
              \<lparr>e_value = PStr ''hello'', e_lastPublished = 1000, e_originallyPublished = 1000,
               e_originalPublisherID = PStr ''me'', e_market_id = PInt 1\<rparr>]\<rparr>
   \<and> snd (snd (invoke_callback E_ex d_rt 1000
                 (CbStoreKeyValue (PStr ''K'') (PStr ''hello'') (PStr ''me'') 0)
                 (PList [PTuple [PStr ''hostA'', PInt 12345, PStr ''a''],
                         PTuple [PStr ''hostX'', PInt 12345, PStr ''xxxx'']])))
     = [Send (PStr ''a'') (proto_store (PStr ''K'') (PStr ''hello'') (PStr ''me'') 0),
        GetCryptoPeerTcp (PStr ''xxxx'') (PStr ''hostX'') (PInt 12345),
        StartHandshake (PStr ''xxxx''),
        Send (PStr ''xxxx'') (proto_store (PStr ''K'') (PStr ''hello'') (PStr ''me'') 0)]"
proof -
  let ?ns = "[[PStr ''hostA'', PInt 12345, PStr ''a''], [PStr ''hostX'', PInt 12345, PStr ''xxxx'']]"
  have j: "\<forall>s. PStr ''hello'' = PStr s \<longrightarrow> json_loads E_ex s = None"
    by (simp add: E_ex_def json_ex_def)
  have n: "\<forall>n \<in> set ?ns. 3 \<le> length n \<and> n ! 2 \<noteq> transport_guid d_rt"
    by (simp add: d_rt_def d_ex_def)
  have c: "concat (map (store_to_node d_rt (proto_store (PStr ''K'') (PStr ''hello'') (PStr ''me'') 0)) ?ns)
     = [Send (PStr ''a'') (proto_store (PStr ''K'') (PStr ''hello'') (PStr ''me'') 0),
        GetCryptoPeerTcp (PStr ''xxxx'') (PStr ''hostX'') (PInt 12345),
        StartHandshake (PStr ''xxxx''),
        Send (PStr ''xxxx'') (proto_store (PStr ''K'') (PStr ''hello'') (PStr ''me'') 0)]"
    by (simp add: store_to_node_def d_rt_def d_ex_def getContact_def peer_ex_def)
  have m: "market_id d_rt = PInt 1" "dataStore d_rt = Map.empty" "transport_guid d_rt = PStr ''me''"
    "searches d_rt = []"
    by (simp_all add: d_rt_def d_ex_def)
  note t = iterativeStore_writes_then_sends
      [where val = "PStr ''hello''" and E = E_ex and d = d_rt and now = 1000
         and findID = "PStr ''f1''" and key = "PStr ''K''" and pub = PNone and age = 0
         and publisher = "PStr ''me''" and ns = ?ns and nodes = "PList (map PTuple ?ns)"]
  show ?thesis using t j n c m by simp
qed

text \<open>
  Claim C4 as it is stated asks that \<open>iterativeStore\<close>, given a non-empty value, writes
  the value to the local store.  On the node with an empty store and an empty routing
  table the lookup ends at once and calls the callback with the empty node list; for
  the value that is the JSON text of a removal from the keyword index the callback
  returns without writing, and the store has no value under the key afterwards.
\<close>

theorem iterativeStore_index_removal_counterexample:
  "truthy (PStr ''{\"keyword_index_remove\": \"L1\"}'')
   \<and> dataStore (fst (snd (iterativeStore E_ex d_ex 1000 (PStr ''f1'') (PStr ''K'')
                            (PStr ''{\"keyword_index_remove\": \"L1\"}'') PNone 0)))
         (PStr ''K'') = None
   \<and> snd (snd (iterativeStore E_ex d_ex 1000 (PStr ''f1'') (PStr ''K'')
                  (PStr ''{\"keyword_index_remove\": \"L1\"}'') PNone 0))
       = [TouchKBucket (PStr ''K'')]"
  by code_simp

text \<open>
  The loop over the nodes leaves at the first node that names the local node: of the
  list \<open>a, me, bb\<close> only \<open>a\<close> is sent the store message.
\<close>

lemma store_loop_ends_at_local_node:
  "snd (snd (invoke_callback E_ex d_rt 1000
               (CbStoreKeyValue (PStr ''K'') (PStr ''hello'') (PStr ''me'') 0) nodes_with_self))
     = [Send (PStr ''a'') (proto_store (PStr ''K'') (PStr ''hello'') (PStr ''me'') 0)]"
  by code_simp

section \<open>Properties of extendShortlist\<close>

lemma add_peer_loop_searches:
  assumes "add_peer_loop d uri pubkey guid nickname earlier peers = Some d'"
  shows "searches d' = searches d \<and> settings_guid d' = settings_guid d
         \<and> dataStore d' = dataStore d"
  using assms
  by (induction peers arbitrary: earlier) (auto simp: Let_def split: if_splits option.splits)

lemma add_peer_fields:
  "searches (fst (snd (add_peer E d uri pubkey guid nickname))) = searches d
   \<and> settings_guid (fst (snd (add_peer E d uri pubkey guid nickname))) = settings_guid d
   \<and> dataStore (fst (snd (add_peer E d uri pubkey guid nickname))) = dataStore d
   \<and> (\<forall>g m. Send g m \<notin> set (snd (snd (add_peer E d uri pubkey guid nickname))))
   \<and> (truthy uri \<longrightarrow> fst (add_peer E d uri pubkey guid nickname) = None)"
proof (cases "add_peer_loop d uri pubkey guid nickname [] (activePeers d)")
  case None
  then show ?thesis by (simp add: add_peer_def)
next
  case (Some d')
  then show ?thesis using add_peer_loop_searches [OF Some] by (simp add: add_peer_def)
qed


lemma add_to_shortlist_single:
  "(if t \<notin> set (s_shortlist s) then add_to_shortlist s [t] else s) = add_to_shortlist s [t]"
  by simp


lemma find_search_bound:
  assumes "find_search xs f i0 found = Some i"
  shows "found = Some i \<or> (i0 \<le> i \<and> i < i0 + length xs \<and> s_findID (xs ! (i - i0)) = f)"
  using assms
proof (induction xs arbitrary: i0 found)
  case Nil
  then show ?case by simp
next
  case (Cons x xs)
  from Cons.IH [OF Cons.prems [simplified]]
  show ?case by (auto simp: nth_Cons' Suc_diff_le split: if_splits)
qed

lemma find_search_valid:
  assumes "find_search xs f 0 None = Some i"
  shows "i < length xs \<and> s_findID (xs ! i) = f"
  using find_search_bound [OF assms] by simp

lemma find_search_cong:
  assumes "map s_findID xs = map s_findID ys"
  shows "find_search xs f i0 found = find_search ys f i0 found"
  using assms
proof (induction xs arbitrary: ys i0 found)
  case Nil
  then show ?case by simp
next
  case (Cons x xs)
  then obtain y ys' where ys: "ys = y # ys'" by (cases ys) auto
  then show ?case using Cons by simp
qed


text \<open>One pass of the loop of \<open>extendShortlist\<close>, for any found node.\<close>

lemma extendShortlist_loop_step:
  "extendShortlist_loop E d i (node # foundNodes) =
     (case unpack4 node of
        Inl e \<Rightarrow> (Some e, d, [])
      | Inr (node_guid, node_uri, node_pubkey, node_nick) \<Rightarrow>
          (let d1 = d\<lparr>searches := (searches d)
                       [i := add_to_shortlist (searches d ! i)
                               [[urlparse_hostname E node_uri, urlparse_port E node_uri,
                                 node_guid, node_nick]]]\<rparr>
           in if node_guid = settings_guid d then extendShortlist_loop E d1 i foundNodes
              else
                (case add_peer E d1 node_uri node_pubkey node_guid node_nick of
                   (Some e, d2, effs) \<Rightarrow> (Some e, d2, effs)
                 | (None, d2, effs) \<Rightarrow>
                     (case extendShortlist_loop E d2 i foundNodes of
                        (err, d3, effs') \<Rightarrow> (err, d3, effs @ effs')))))"
  by (simp add: Let_def split: sum.splits prod.splits)

lemma extendShortlist_loop_fields:
  assumes "i < length (searches d)"
  shows "map s_findID (searches (fst (snd (extendShortlist_loop E d i foundNodes))))
           = map s_findID (searches d)
         \<and> map s_callback (searches (fst (snd (extendShortlist_loop E d i foundNodes))))
           = map s_callback (searches d)
         \<and> map s_contactedNow (searches (fst (snd (extendShortlist_loop E d i foundNodes))))
           = map s_contactedNow (searches d)
         \<and> (\<forall>j. j \<noteq> i \<longrightarrow> searches (fst (snd (extendShortlist_loop E d i foundNodes))) ! j
                            = searches d ! j)
         \<and> dataStore (fst (snd (extendShortlist_loop E d i foundNodes))) = dataStore d
         \<and> (\<forall>g m. Send g m \<notin> set (snd (snd (extendShortlist_loop E d i foundNodes))))"
  using assms
proof (induction foundNodes arbitrary: d)
  case Nil
  show ?case by simp
next
  case (Cons node foundNodes)
  show ?case
  proof (cases "unpack4 node")
    case (Inl e)
    then show ?thesis by (simp add: extendShortlist_loop_step del: extendShortlist_loop.simps)
  next
    case (Inr q)
    obtain node_guid node_uri node_pubkey node_nick where
      q: "q = (node_guid, node_uri, node_pubkey, node_nick)" by (cases q) auto
    define s' where "s' = add_to_shortlist (searches d ! i)
                               [[urlparse_hostname E node_uri, urlparse_port E node_uri,
                                 node_guid, node_nick]]"
    define d1 where "d1 = d\<lparr>searches := (searches d)[i := s']\<rparr>"
    have s': "s_findID s' = s_findID (searches d ! i) \<and> s_callback s' = s_callback (searches d ! i)
              \<and> s_contactedNow s' = s_contactedNow (searches d ! i)"
      unfolding s'_def using add_to_shortlist_fields by blast
    have d1: "map s_findID (searches d1) = map s_findID (searches d)
              \<and> map s_callback (searches d1) = map s_callback (searches d)
              \<and> map s_contactedNow (searches d1) = map s_contactedNow (searches d)
              \<and> (\<forall>j. j \<noteq> i \<longrightarrow> searches d1 ! j = searches d ! j)
              \<and> dataStore d1 = dataStore d \<and> i < length (searches d1)"
      using s' Cons.prems by (simp add: d1_def map_update_same)
    have eq: "extendShortlist_loop E d i (node # foundNodes) =
       (if node_guid = settings_guid d then extendShortlist_loop E d1 i foundNodes
        else
          (case add_peer E d1 node_uri node_pubkey node_guid node_nick of
             (Some e, d2, effs) \<Rightarrow> (Some e, d2, effs)
           | (None, d2, effs) \<Rightarrow>
               (case extendShortlist_loop E d2 i foundNodes of
                  (err, d3, effs') \<Rightarrow> (err, d3, effs @ effs'))))"
      unfolding extendShortlist_loop_step d1_def s'_def Let_def using Inr q by simp
    show ?thesis
    proof (cases "node_guid = settings_guid d")
      case True
      have "extendShortlist_loop E d i (node # foundNodes) = extendShortlist_loop E d1 i foundNodes"
        using eq True by simp
      then show ?thesis using Cons.IH [of d1] d1 by simp
    next
      case False
      obtain e2 d2 effs2 where
        ap: "add_peer E d1 node_uri node_pubkey node_guid node_nick = (e2, d2, effs2)"
        by (cases "add_peer E d1 node_uri node_pubkey node_guid node_nick") auto
      have d2: "searches d2 = searches d1 \<and> dataStore d2 = dataStore d1
                \<and> (\<forall>g m. Send g m \<notin> set effs2)"
        using add_peer_fields [of E d1 node_uri node_pubkey node_guid node_nick] ap by simp
      show ?thesis
      proof (cases e2)
        case (Some e)
        then have "extendShortlist_loop E d i (node # foundNodes) = (Some e, d2, effs2)"
          using eq False ap by simp
        then show ?thesis using d1 d2 by simp
      next
        case None
        obtain e3 d3 effs3 where l: "extendShortlist_loop E d2 i foundNodes = (e3, d3, effs3)"
          by (cases "extendShortlist_loop E d2 i foundNodes") auto
        have "extendShortlist_loop E d i (node # foundNodes) = (e3, d3, effs2 @ effs3)"
          using eq False ap None l by simp
        then show ?thesis using Cons.IH [of d2] d1 d2 l by simp
      qed
    qed
  qed
qed





section \<open>Properties of the probe counter\<close>





section \<open>Which methods end a search\<close>

lemma activeSearchExists_loop_iff:
  "activeSearchExists_loop xs f \<longleftrightarrow> f \<in> set (map s_findID xs)"
  by (induction xs) auto

lemma activeSearchExists_iff:
  "activeSearchExists d f \<longleftrightarrow> f \<in> set (map s_findID (searches d))"
  by (simp add: activeSearchExists_def activeSearchExists_loop_iff)

lemma on_find_node_searches: "searches (fst (snd (on_find_node E d msg))) = searches d"
proof (cases "\<exists>f. f \<in> set [''senderGUID'', ''key'', ''findID'', ''uri'', ''pubkey'']
                   \<and> map_of msg f = None")
  case True
  then obtain f where "f \<in> set [''senderGUID'', ''key'', ''findID'', ''uri'', ''pubkey'']"
    and "map_of msg f = None" by blast
  then have "on_find_node E d msg = (Some KeyError, d, [])" by (rule on_find_node_absent)
  then show ?thesis by simp
next
  case False
  then obtain guid key findID uri pubkey where
    p: "map_of msg ''senderGUID'' = Some guid" "map_of msg ''key'' = Some key"
       "map_of msg ''findID'' = Some findID" "map_of msg ''uri'' = Some uri"
       "map_of msg ''pubkey'' = Some pubkey"
    by fastforce
  show ?thesis
    unfolding on_find_node_present [OF p, of E d]
    by (simp split: option.splits)
qed

lemma on_storeValue_searches:
  assumes "on_storeValue d now msg = Inr d'"
  shows "searches d' = searches d"
  using assms
  by (auto simp: on_storeValue_def split: sum.splits if_splits)

lemma store_searches:
  assumes "store d now key val pub age kwargs = Inr r"
  shows "searches (snd r) = searches d"
  using assms by (auto simp: store_def split: if_splits)

lemma threadedRepublishData_searches:
  assumes "threadedRepublishData E d keys = Inr r"
  shows "searches (fst r) = searches d"
  using assms by (auto simp: threadedRepublishData_def split: sum.splits)

lemma extendShortlist_ids:
  "map s_findID (searches (fst (snd (extendShortlist E d findID foundNodes))))
     = map s_findID (searches d)"
proof (cases "find_search (searches d) findID 0 None")
  case None
  then show ?thesis by (simp add: extendShortlist_def)
next
  case (Some i)
  have "i < length (searches d)" using find_search_valid [OF Some] by simp
  then show ?thesis
    using extendShortlist_loop_fields [of i d E foundNodes] Some
    by (simp add: extendShortlist_def)
qed

lemma extend_with_found_ids:
  "map s_findID (searches (fst (snd (extend_with_found E d findID nodes))))
     = map s_findID (searches d)"
proof (induction nodes arbitrary: d)
  case Nil
  show ?case by simp
next
  case (Cons node rest)
  obtain e1 d1 effs1 where x: "extendShortlist E d findID [node] = (e1, d1, effs1)"
    by (cases "extendShortlist E d findID [node]") auto
  have d1: "map s_findID (searches d1) = map s_findID (searches d)"
    using extendShortlist_ids [of E d findID "[node]"] x by simp
  obtain e2 d2 effs2 where y: "extend_with_found E d1 findID rest = (e2, d2, effs2)"
    by (cases "extend_with_found E d1 findID rest") auto
  have d2: "map s_findID (searches d2) = map s_findID (searches d)"
    using Cons.IH [of d1] y d1 by simp
  have "fst (snd (extend_with_found E d findID (node # rest))) = d
        \<or> fst (snd (extend_with_found E d findID (node # rest))) = d1
        \<or> fst (snd (extend_with_found E d findID (node # rest))) = d2
        \<or> fst (snd (extend_with_found E d findID (node # rest)))
            = fst (snd (extend_with_found E d findID rest))"
    using x y by (cases e1) (auto split: sum.splits)
  then show ?case using d1 d2 Cons.IH [of d] by auto
qed

lemma iterativeStore_ids:
  "set (map s_findID (searches d))
     \<subseteq> set (map s_findID (searches (fst (snd (iterativeStore E d now findID key val pub age)))))"
proof (cases "truthy val")
  case False
  then show ?thesis by (simp add: iterativeStore_def)
next
  case True
  let ?cb = "iterativeStore_callback d key val pub age"
  obtain e1 d1 r1 effs1 where
    f: "iterativeFind E d now findID key None (PStr ''findNode'') ?cb = (e1, d1, r1, effs1)"
    by (cases "iterativeFind E d now findID key None (PStr ''findNode'') ?cb") auto
  have "fst (snd (iterativeStore E d now findID key val pub age)) = d1"
    using True f by (simp add: iterativeStore_def iterativeFindNode_def)
  then show ?thesis
    using iterativeFind_searches [of E d now findID key None "PStr ''findNode''" ?cb] f
    by auto
qed
lemma end_searches_keeps:
  assumes "\<forall>d s. searches (fst (snd (call d s))) = searches d"
    and "searches d = earlier @ todo"
    and "f \<in> set (map s_findID (earlier @ todo))"
    and "map_of msg ''findID'' \<noteq> Some f"
  shows "f \<in> set (map s_findID (searches (fst (snd (end_searches call msg d earlier todo)))))"
  using assms
proof (induction call msg d earlier todo rule: end_searches.induct)
  case (1 call msg d earlier)
  then show ?case by simp
next
  case (2 call msg d earlier s)
  show ?case
  proof (cases "map_of msg ''findID''")
    case None
    then show ?thesis using "2.prems" by (simp add: msg_get_def)
  next
    case (Some findID)
    from this "2.prems"(4) have ne: "findID \<noteq> f" by blast
    obtain e1 d1 effs1 where c: "call d s = (e1, d1, effs1)" by (cases "call d s") auto
    have d1: "searches d1 = searches d" using "2.prems"(1) c by (metis fst_conv snd_conv)
    show ?thesis
    proof (cases "s_findID s = findID")
      case False
      then show ?thesis using "2.prems" Some by (simp add: msg_get_def)
    next
      case True
      then have "f \<in> set (map s_findID earlier)" using "2.prems"(3) ne by auto
      then show ?thesis using "2.prems"(2,3) Some True c d1
        by (cases e1) (simp_all add: msg_get_def)
    qed
  qed
next
  case (3 call msg d earlier s t rest)
  show ?case
  proof (cases "map_of msg ''findID''")
    case None
    then show ?thesis using "3.prems"(2,3) by (simp add: msg_get_def)
  next
    case (Some findID)
    from this "3.prems"(4) have ne: "findID \<noteq> f" by blast
    have mg: "msg_get msg ''findID'' = Inr findID" using Some by (simp add: msg_get_def)
    obtain e1 d1 effs1 where c: "call d s = (e1, d1, effs1)" by (cases "call d s") auto
    have d1: "searches d1 = searches d" using "3.prems"(1) c by (metis fst_conv snd_conv)
    show ?thesis
    proof (cases "s_findID s = findID")
      case False
      have "end_searches call msg d earlier (s # t # rest)
              = end_searches call msg d (earlier @ [s]) (t # rest)"
        using mg False by simp
      moreover have "f \<in> set (map s_findID (searches (fst (snd
                        (end_searches call msg d (earlier @ [s]) (t # rest))))))"
        using "3.IH"(2) [OF mg False "3.prems"(1) _ _ "3.prems"(4)] "3.prems"(2,3) by simp
      ultimately show ?thesis by simp
    next
      case True
      show ?thesis
      proof (cases e1)
        case (Some e)
        then have "end_searches call msg d earlier (s # t # rest) = (Some e, d1, effs1)"
          using mg True c by simp
        then show ?thesis using d1 "3.prems"(2,3) by simp
      next
        case None
        let ?d2 = "d1\<lparr>searches := earlier @ t # rest\<rparr>"
        have in2: "f \<in> set (map s_findID ((earlier @ [t]) @ rest))"
          using "3.prems"(3) True ne by auto
        have s2: "searches ?d2 = (earlier @ [t]) @ rest" by simp
        obtain e3 d3 effs3 where
          r: "end_searches call msg ?d2 (earlier @ [t]) rest = (e3, d3, effs3)"
          by (cases "end_searches call msg ?d2 (earlier @ [t]) rest") auto
        have c': "(e1, d1, effs1) = call d s" using c by simp
        have "f \<in> set (map s_findID (searches (fst (snd
                  (end_searches call msg ?d2 (earlier @ [t]) rest)))))"
          using "3.IH"(1) [OF mg True c' _ _ "3.prems"(1) s2 in2 "3.prems"(4)] None by simp
        moreover have "end_searches call msg d earlier (s # t # rest) = (e3, d3, effs1 @ effs3)"
          using mg True c None r by simp
        ultimately show ?thesis using r by simp
      qed
    qed
  qed
qed
lemma on_foundNodes_ids:
  "map s_findID (searches (fst (snd (on_foundNodes E d now msg)))) = map s_findID (searches d)"
proof (cases "msg_get msg ''findID''")
  case (Inl e)
  then show ?thesis by (simp add: on_foundNodes_def)
next
  case (Inr findID)
  note fid = Inr
  show ?thesis
  proof (cases "find_search (searches d) findID 0 None")
    case None
    then show ?thesis using fid by (simp add: on_foundNodes_def)
  next
    case (Some i)
    have i: "i < length (searches d)" using find_search_valid [OF Some] by simp
    show ?thesis
    proof (cases "msg_get msg ''foundNodes''")
      case (Inl e)
      then show ?thesis using fid Some by (simp add: on_foundNodes_def)
    next
      case (Inr foundNodes)
      note fns = Inr
      show ?thesis
      proof (cases "py_iter foundNodes")
        case (Inl e)
        then show ?thesis using fid Some fns by (simp add: on_foundNodes_def)
      next
        case (Inr nodes)
        note it = Inr
        obtain e1 d1 effs1 where x: "extend_with_found E d findID nodes = (e1, d1, effs1)"
          by (cases "extend_with_found E d findID nodes") auto
        have d1: "map s_findID (searches d1) = map s_findID (searches d)"
          using extend_with_found_ids [of E d findID nodes] x by simp
        have i1: "i < length (searches d1)" using i d1 by (metis length_map)
        show ?thesis
        proof (cases e1)
          case (Some e)
          then show ?thesis using fid \<open>find_search (searches d) findID 0 None = Some i\<close> fns it x d1
            by (simp add: on_foundNodes_def)
        next
          case None
          note e1 = None
          show ?thesis
          proof (cases "msg_get msg ''uri''")
            case (Inl e)
            then show ?thesis
              using fid \<open>find_search (searches d) findID 0 None = Some i\<close> fns it x d1 e1
              by (simp add: on_foundNodes_def)
          next
            case (Inr uri)
            note u = Inr
            show ?thesis
            proof (cases "msg_get msg ''senderGUID''")
              case (Inl e)
              then show ?thesis
                using fid \<open>find_search (searches d) findID 0 None = Some i\<close> fns it x d1 e1 u
                by (simp add: on_foundNodes_def)
            next
              case (Inr search_guid)
              note sg = Inr
              let ?search_tuple = "[urlparse_hostname E uri, urlparse_port E uri, search_guid]"
              let ?search1 = "(searches d1 ! i)\<lparr>s_active_probes :=
                              del_probes ?search_tuple (s_active_probes (searches d1 ! i))\<rparr>"
              let ?search2 = "(if ?search_tuple \<notin> set (s_already_contacted ?search1)
                            then ?search1\<lparr>s_already_contacted :=
                                            s_already_contacted ?search1 @ [?search_tuple]\<rparr>
                            else ?search1)"
              let ?d2 = "d1\<lparr>searches := (searches d1)[i := ?search2]\<rparr>"
              have s2: "s_findID ?search2 = s_findID (searches d1 ! i)"
                by simp
              have d2: "map s_findID (searches ?d2) = map s_findID (searches d1)"
                "i < length (searches ?d2)"
                using i1 map_update_same [OF i1, of s_findID ?search2] s2 by simp_all
              have d3: "map s_findID (searches (fst (snd (searchIteration_at E ?d2 i False))))
                          = map s_findID (searches ?d2)"
              proof -
                obtain e3 d3 effs3 where y: "searchIteration_at E ?d2 i False = (e3, d3, effs3)"
                  by (cases "searchIteration_at E ?d2 i False") auto
                show ?thesis using searchIteration_at_fields [OF y d2(2)] y by simp
              qed
              have d4: "searches (fst (snd (invoke_callback E ?d2 now (s_callback ?search2)
                      (PList (map PTuple (s_shortlist ?search2)))))) = searches ?d2"
                by (rule invoke_callback_searches)
              have eq: "on_foundNodes E d now msg =
                 (if length (s_shortlist ?search2) > length (s_shortlist (searches d ! i))
                  then (case searchIteration_at E ?d2 i False of
                           (err, d3, effs') \<Rightarrow> (err, d3, effs1 @ effs'))
                  else if s_callback ?search2 \<noteq> CbNone then
                        (case invoke_callback E ?d2 now (s_callback ?search2)
                                (PList (map PTuple (s_shortlist ?search2))) of
                           (err, d3, effs') \<Rightarrow> (err, d3, effs1 @ effs'))
                  else (None, ?d2, effs1))"
                unfolding on_foundNodes_def Let_def fid sum.case
                  \<open>find_search (searches d) findID 0 None = Some i\<close> option.case fns it x e1
                  prod.case u sg
                by (rule refl)
              have "fst (snd (on_foundNodes E d now msg)) = ?d2
                    \<or> fst (snd (on_foundNodes E d now msg))
                        = fst (snd (searchIteration_at E ?d2 i False))
                    \<or> fst (snd (on_foundNodes E d now msg))
                        = fst (snd (invoke_callback E ?d2 now (s_callback ?search2)
                            (PList (map PTuple (s_shortlist ?search2)))))"
                unfolding eq by (simp only: split: if_splits prod.splits) auto
              then show ?thesis using d1 d2(1) d3 d4 by metis
            qed
          qed
        qed
      qed
    qed
  qed
qed
lemma foundNode_add_peer_searches:
  "searches (fst (snd (fst (foundNode_add_peer E d foundNode)))) = searches d"
  using add_peer_fields [of E d]
  by (auto simp: foundNode_add_peer_def split: sum.splits if_splits)

lemma foundNode_callback_searches:
  "searches (fst (snd (foundNode_callback E now foundNode d s))) = searches d"
  by (auto simp: foundNode_callback_def invoke_callback_searches split: sum.splits)

lemma on_foundNode_keeps:
  assumes "f \<in> set (map s_findID (searches d))" and "map_of msg ''findID'' \<noteq> Some f"
  shows "f \<in> set (map s_findID (searches (fst (snd (on_foundNode E d now msg foundNode)))))"
proof -
  obtain e1 d1 effs1 fn' where a: "foundNode_add_peer E d foundNode = ((e1, d1, effs1), fn')"
    by (cases "foundNode_add_peer E d foundNode") auto
  have d1: "searches d1 = searches d"
    using foundNode_add_peer_searches [of E d foundNode] a by simp
  show ?thesis
  proof (cases e1)
    case (Some e)
    then show ?thesis using a d1 assms(1) by (simp add: on_foundNode_def)
  next
    case None
    obtain e2 d2 effs2 where
      b: "end_searches (foundNode_callback E now fn') msg d1 [] (searches d1) = (e2, d2, effs2)"
      by (cases "end_searches (foundNode_callback E now fn') msg d1 [] (searches d1)") auto
    have "f \<in> set (map s_findID (searches (fst (snd
             (end_searches (foundNode_callback E now fn') msg d1 [] (searches d1))))))"
      by (rule end_searches_keeps)
         (use assms d1 in \<open>simp_all add: foundNode_callback_searches\<close>)
    then show ?thesis using a None b by (simp add: on_foundNode_def)
  qed
qed

lemma on_findNodeResponse_keeps:
  assumes "f \<in> set (map s_findID (searches d))" and "map_of msg ''findID'' \<noteq> Some f"
  shows "f \<in> set (map s_findID (searches (fst (snd (on_findNodeResponse E d now msg)))))"
proof -
  obtain ep peers where u: "update_active_peers msg (activePeers d) = (ep, peers)"
    by (cases "update_active_peers msg (activePeers d)") auto
  let ?d1 = "d\<lparr>activePeers := peers\<rparr>"
  have d1: "searches ?d1 = searches d" by simp
  show ?thesis
  proof (cases ep)
    case (Some e)
    then show ?thesis using u assms(1) by (simp add: on_findNodeResponse_def)
  next
    case None
    note ep = None
    show ?thesis
    proof (cases "map_of msg ''foundKey''")
      case (Some foundKey)
      have "f \<in> set (map s_findID (searches (fst (snd
             (end_searches (\<lambda>d' s. invoke_callback E d' now (s_callback s) foundKey) msg ?d1 []
                (searches ?d1))))))"
        by (rule end_searches_keeps)
           (use assms in \<open>simp_all add: invoke_callback_searches\<close>)
      then show ?thesis using u ep Some by (simp add: on_findNodeResponse_def)
    next
      case None
      note fk = None
      show ?thesis
      proof (cases "map_of msg ''foundNode''")
        case (Some foundNode)
        have "f \<in> set (map s_findID (searches (fst (snd (on_foundNode E ?d1 now msg foundNode)))))"
          by (rule on_foundNode_keeps) (use assms in simp_all)
        then show ?thesis using u ep fk Some by (simp add: on_findNodeResponse_def)
      next
        case None
        have "map s_findID (searches (fst (snd (on_foundNodes E ?d1 now msg))))
                = map s_findID (searches ?d1)"
          by (rule on_foundNodes_ids)
        then show ?thesis using u ep fk None assms(1) by (simp add: on_findNodeResponse_def)
      qed
    qed
  qed
qed

lemma step_keeps:
  assumes "f \<in> set (map s_findID (searches d))" and "answers ev \<noteq> Some f"
  shows "f \<in> set (map s_findID (searches (step E d ev)))"
proof (cases ev)
  case (EvFindNode msg)
  then show ?thesis using assms(1) by (simp add: on_find_node_searches)
next
  case (EvFindNodeResponse now msg)
  then show ?thesis using assms on_findNodeResponse_keeps [of f d msg E now] by simp
next
  case (EvStoreValue now msg)
  then show ?thesis using assms(1) on_storeValue_searches [of d now msg]
    by (simp split: sum.splits)
next
  case (EvStore now key val pub age kwargs)
  then show ?thesis using assms(1) store_searches [of d now key val pub age "map_of kwargs"]
    by (simp split: sum.splits)
next
  case (EvIterativeFind now findID key startup call cb)
  then show ?thesis
    using assms(1) iterativeFind_searches [of E d now findID key startup call cb] by simp
next
  case (EvIterativeStore now findID key val pub age)
  then show ?thesis
    using assms(1) iterativeStore_ids [of d E now findID key val pub age] by auto
next
  case (EvExtendShortlist findID foundNodes)
  then show ?thesis using assms(1) by (simp add: extendShortlist_ids)
next
  case (EvAddPeer uri pubkey guid nickname)
  then show ?thesis using assms(1) add_peer_fields [of E d uri pubkey guid nickname] by simp
next
  case (EvRepublish keys)
  then show ?thesis using assms(1) threadedRepublishData_searches [of E d keys]
    by (simp split: sum.splits)
qed

lemma run_keeps:
  assumes "f \<in> set (map s_findID (searches d))"
    and "\<forall>ev \<in> set evs. answers ev \<noteq> Some f"
  shows "f \<in> set (map s_findID (searches (run E d evs)))"
  using assms unfolding run_def
proof (induction evs arbitrary: d)
  case Nil
  then show ?case by simp
next
  case (Cons ev evs)
  have "f \<in> set (map s_findID (searches (step E d ev)))"
    using step_keeps [of f d ev E] Cons.prems by simp
  then show ?case using Cons.IH [of "step E d ev"] Cons.prems(2) by simp
qed
section \<open>Properties of an aborted lookup\<close>

text \<open>
  Claim C10.  \<open>iterativeFind\<close> appends the new search to the list of searches before it
  tests whether the node looks for itself and whether the key is the guid of an active
  peer.  When one of the two early returns fires (the call is findNode and the key is
  the local guid or the guid of an active peer), the method returns with the new search
  as the last entry of the list, having sent nothing and called no callback, and
  \<open>activeSearchExists\<close> holds for its find ID.  No method removes the search afterwards:
  the only deletions from the list are those of \<open>on_findNodeResponse\<close>, for the find ID
  that the response names, and the find ID of an aborted lookup has not been sent to
  any peer.  So after every sequence of calls in which no findNodeResponse names that
  find ID, \<open>activeSearchExists\<close> still holds for it.
\<close>

theorem aborted_lookup_stays_active:
  assumes "call = PStr ''findNode''"
    and "key = settings_guid d \<or> (\<exists>p \<in> set (activePeers d). c_guid p = key)"
  shows "fst (iterativeFind E d now findID key startup call cb) = None
     \<and> fst (snd (iterativeFind E d now findID key startup call cb))
         = d\<lparr>searches := searches d @ [new_DHTSearch key call cb findID]\<rparr>
     \<and> snd (snd (snd (iterativeFind E d now findID key startup call cb))) = []
     \<and> (key = settings_guid d \<longrightarrow>
          fst (snd (snd (iterativeFind E d now findID key startup call cb))) = LookingForYourself)
     \<and> (key \<noteq> settings_guid d \<longrightarrow>
          (\<exists>p \<in> set (activePeers d). c_guid p = key
             \<and> fst (snd (snd (iterativeFind E d now findID key startup call cb))) = ActivePeer p))
     \<and> activeSearchExists (fst (snd (iterativeFind E d now findID key startup call cb))) findID
     \<and> (\<forall>evs. (\<forall>ev \<in> set evs. answers ev \<noteq> Some findID) \<longrightarrow>
          activeSearchExists
            (run E (fst (snd (iterativeFind E d now findID key startup call cb))) evs) findID)"
proof -
  let ?d1 = "d\<lparr>searches := searches d @ [new_DHTSearch key call cb findID]\<rparr>"
  have r: "\<exists>ret. iterativeFind E d now findID key startup call cb = (None, ?d1, ret, [])
            \<and> (key = settings_guid d \<longrightarrow> ret = LookingForYourself)
            \<and> (key \<noteq> settings_guid d \<longrightarrow>
                 (\<exists>p \<in> set (activePeers d). c_guid p = key \<and> ret = ActivePeer p))"
  proof (cases "key = settings_guid d")
    case True
    then show ?thesis using assms(1) by (simp add: iterativeFind_def Let_def)
  next
    case False
    then obtain q where "q \<in> set (activePeers d)" "c_guid q = key" using assms(2) by blast
    then have "find (\<lambda>node. c_guid node = key) (activePeers d) \<noteq> None"
      by (auto simp: find_None_iff)
    then obtain p where p: "find (\<lambda>node. c_guid node = key) (activePeers d) = Some p" by auto
    then have pp: "p \<in> set (activePeers d) \<and> c_guid p = key"
      by (auto simp: find_Some_iff)
    have "iterativeFind E d now findID key startup call cb = (None, ?d1, ActivePeer p, [])"
      using False assms(1) p by (simp add: iterativeFind_def Let_def)
    then show ?thesis using False pp by blast
  qed
  then obtain ret where
    e: "iterativeFind E d now findID key startup call cb = (None, ?d1, ret, [])"
    and l: "key = settings_guid d \<longrightarrow> ret = LookingForYourself"
    and a: "key \<noteq> settings_guid d \<longrightarrow>
                 (\<exists>p \<in> set (activePeers d). c_guid p = key \<and> ret = ActivePeer p)"
    by blast
  have m: "findID \<in> set (map s_findID (searches ?d1))" by (simp add: new_DHTSearch_def)
  have act: "activeSearchExists ?d1 findID" using m by (simp only: activeSearchExists_iff)
  have pers: "\<forall>evs. (\<forall>ev \<in> set evs. answers ev \<noteq> Some findID) \<longrightarrow>
          activeSearchExists (run E ?d1 evs) findID"
    using run_keeps [OF m] by (simp only: activeSearchExists_iff) blast
  show ?thesis unfolding e using l a act pers by simp
qed

theorem aborted_lookup_stays_active_witness:
  "iterativeFind E_ex d_rt 1000 (PStr ''f9'') (PStr ''me'') None (PStr ''findNode'') CbNone
     = (None,
        d_rt\<lparr>searches := [new_DHTSearch (PStr ''me'') (PStr ''findNode'') CbNone (PStr ''f9'')]\<rparr>,
        LookingForYourself, [])
   \<and> activeSearchExists
       (run E_ex
          (fst (snd (iterativeFind E_ex d_rt 1000 (PStr ''f9'') (PStr ''me'') None
                       (PStr ''findNode'') CbNone)))
          [EvFindNode msg_find, EvFindNodeResponse 1001 msg_found, EvStoreValue 1002 msg_L1,
           EvIterativeFind 1003 (PStr ''f1'') (PStr ''kkkk'') None (PStr ''findNode'') CbNone,
           EvFindNodeResponse 1004 msg_found])
       (PStr ''f9'')"
proof -
  have k: "PStr ''me'' = settings_guid d_rt \<or> (\<exists>p \<in> set (activePeers d_rt). c_guid p = PStr ''me'')"
    by (simp add: d_rt_def d_ex_def)
  have s: "searches d_rt = []" "settings_guid d_rt = PStr ''me''" by (simp_all add: d_rt_def d_ex_def)
  have ev: "\<forall>ev \<in> set [EvFindNode msg_find, EvFindNodeResponse 1001 msg_found,
              EvStoreValue 1002 msg_L1,
              EvIterativeFind 1003 (PStr ''f1'') (PStr ''kkkk'') None (PStr ''findNode'') CbNone,
              EvFindNodeResponse 1004 msg_found]. answers ev \<noteq> Some (PStr ''f9'')"
    by (simp add: msg_found_def)
  note t = aborted_lookup_stays_active [OF refl k, of E_ex 1000 "PStr ''f9''" None CbNone]
  have a: "iterativeFind E_ex d_rt 1000 (PStr ''f9'') (PStr ''me'') None (PStr ''findNode'') CbNone
     = (None,
        d_rt\<lparr>searches := [new_DHTSearch (PStr ''me'') (PStr ''findNode'') CbNone (PStr ''f9'')]\<rparr>,
        LookingForYourself, [])"
    using t s by (simp add: prod_eq_iff)
  have b: "activeSearchExists
       (run E_ex
          (fst (snd (iterativeFind E_ex d_rt 1000 (PStr ''f9'') (PStr ''me'') None
                       (PStr ''findNode'') CbNone)))
          [EvFindNode msg_find, EvFindNodeResponse 1001 msg_found, EvStoreValue 1002 msg_L1,
           EvIterativeFind 1003 (PStr ''f1'') (PStr ''kkkk'') None (PStr ''findNode'') CbNone,
           EvFindNodeResponse 1004 msg_found])
       (PStr ''f9'')"
    using t ev by blast
  show ?thesis using a b by simp
qed

end
